theory Spec2Isabelle
  imports Main "HOL-Library.AList"
begin

section \<open>Data model\<close>

text \<open>
  An event, an aggregation record and the body of a query request are Python dictionaries
  with string keys. A dictionary keeps its keys in insertion order, assigning to a present key
  replaces the value in place and assigning to an absent key appends the entry: this is
  an association list with \<open>map_of\<close> for reading and \<open>AList.update\<close> for writing.
  The only values the code inspects are strings; every other JSON value is kept
  abstract (\<open>JOther\<close>), and its rendering by Python's \<open>str\<close> is a parameter of the
  environment.
\<close>

datatype 'a jvalue = JStr string | JOther 'a

type_synonym 'a pydict = "(string \<times> 'a jvalue) list"

text \<open>What \<open>datetime.now()\<close> gives at one call: \<open>.isoformat()\<close> and \<open>int(.timestamp())\<close>.\<close>

record reading =
  iso :: string
  unix :: int

text \<open>The fields of a parsed timestamp that the archival key uses.\<close>

record date =
  year :: nat
  month :: nat
  day :: nat

text \<open>
  \<open>status_response['QueryExecution']['Status']\<close>: the state, and the optional
  \<open>StateChangeReason\<close>.
\<close>

record query_status =
  State :: string
  StateChangeReason :: "string option"

text \<open>
  A result row is the list of its cells (\<open>row['Data']\<close>); a cell is a dictionary that
  may or may not hold \<open>VarCharValue\<close>.
\<close>

type_synonym cell = "string option"
type_synonym row = "cell list"

text \<open>
  Everything the code does to the outside world, in the order it does it. The trace makes
  statements such as "the point store is never written" or "thirty polls, one sleep after
  each" precise.
\<close>

datatype 'a effect =
    PutItem "'a pydict"
  | PutObject string "'a pydict"
  | Print string
  | GetItem string
  | BatchWriter
  | WriterPutItem "'a pydict"
  | WriterExit "'a pydict list"
  | Query string string string
  | StartQueryExecution "'a jvalue"
  | GetQueryExecution string
  | GetQueryResults string nat
  | Sleep nat
  | Metric string nat
  | LogInfo string
  | LogError string

text \<open>
  The backends are external collaborators: the point store, the object store, the SQL
  service, the clock and the standard library's ISO parser. Each operation is a
  parameter. An operation that can raise returns the exception's message (\<open>str(e)\<close>),
  as \<open>Some msg\<close> or \<open>Inl msg\<close>. The clock and the query status are read several times in
  one request: they are indexed by the number of the reading.
\<close>

record 'a backend =
  str_other :: "'a \<Rightarrow> string"
  now :: "nat \<Rightarrow> reading"
  fromisoformat :: "string \<Rightarrow> string + date"
  put_item :: "'a pydict \<Rightarrow> string option"
  put_object :: "string \<Rightarrow> 'a pydict \<Rightarrow> string option"
  get_item :: "string \<Rightarrow> string + 'a pydict option"
  writer_put_item :: "'a pydict \<Rightarrow> string option"
  writer_exit :: "'a pydict list \<Rightarrow> string option"
  aggregations_query :: "string \<Rightarrow> string \<Rightarrow> string \<Rightarrow> string + 'a pydict list option"
  start_query_execution :: "'a jvalue \<Rightarrow> string + string"
  get_query_execution :: "string \<Rightarrow> nat \<Rightarrow> string + query_status"
  get_query_results :: "string \<Rightarrow> nat \<Rightarrow> string + row list"

section \<open>Strings\<close>

text \<open>Decimal rendering of integers, as \<open>str\<close> and the f-string fields do.\<close>

definition digit :: "nat \<Rightarrow> char" where
  "digit d = ''0123456789'' ! d"

function str_nat :: "nat \<Rightarrow> string" where
  "str_nat n = (if n < 10 then [digit n] else str_nat (n div 10) @ [digit (n mod 10)])"
  by pat_completeness auto
termination
  by (relation "measure id") auto

declare str_nat.simps [simp del]

definition str_int :: "int \<Rightarrow> string" where
  "str_int i = (if i < 0 then CHR ''-'' # str_nat (nat (- i)) else str_nat (nat i))"

text \<open>The format \<open>:02d\<close>: at least two digits, padded with a zero.\<close>

definition fmt_02d :: "nat \<Rightarrow> string" where
  "fmt_02d n = (if n < 10 then CHR ''0'' # str_nat n else str_nat n)"

text \<open>\<open>str(v)\<close> and \<open>f"{v}"\<close> of a value.\<close>

definition py_str :: "'a backend \<Rightarrow> 'a jvalue \<Rightarrow> string" where
  "py_str env v = (case v of JStr s \<Rightarrow> s | JOther x \<Rightarrow> str_other env x)"

text \<open>\<open>str(KeyError(k))\<close> is the key's \<open>repr\<close>.\<close>

definition key_error :: "string \<Rightarrow> string" where
  "key_error k = CHR 0x27 # k @ [CHR 0x27]"

section \<open>Analytics service\<close>

text \<open>
  Every function returns its result together with the trace of its effects. A function
  that can raise returns \<open>Inl msg\<close> for \<open>raise Exception(msg)\<close>: the code has one
  exception class, and an exception is told from another by its message only.
\<close>

subsection \<open>Event storage\<close>

definition s3_key :: "date \<Rightarrow> string \<Rightarrow> string" where
  "s3_key ts eid =
     ''events/year='' @ str_nat (year ts) @ ''/month='' @ fmt_02d (month ts) @
     ''/day='' @ fmt_02d (day ts) @ ''/'' @ eid @ ''.json''"

text \<open>
  The body of the \<open>try\<close> in \<open>_store_event_to_s3\<close>: the exception that leaves it, if
  any, and the trace. A missing \<open>timestamp\<close> or \<open>event_id\<close> is a \<open>KeyError\<close>, a
  timestamp that is not a string a \<open>TypeError\<close>, one that does not parse the parser's
  \<open>ValueError\<close>.
\<close>

definition try_store_event_to_s3 ::
  "'a backend \<Rightarrow> 'a pydict \<Rightarrow> string option \<times> 'a effect list" where
  "try_store_event_to_s3 env event_data =
     (case map_of event_data ''timestamp'' of
        None \<Rightarrow> (Some (key_error ''timestamp''), [])
      | Some (JOther x) \<Rightarrow> (Some ''fromisoformat: argument must be str'', [])
      | Some (JStr s) \<Rightarrow>
          (case fromisoformat env s of
             Inl e \<Rightarrow> (Some e, [])
           | Inr ts \<Rightarrow>
               (case map_of event_data ''event_id'' of
                  None \<Rightarrow> (Some (key_error ''event_id''), [])
                | Some eid \<Rightarrow>
                    (let key = s3_key ts (py_str env eid)
                     in (put_object env key event_data, [PutObject key event_data])))))"

text \<open>\<open>_store_event_to_s3\<close>: the \<open>except\<close> prints a warning and returns.\<close>

definition store_event_to_s3 :: "'a backend \<Rightarrow> 'a pydict \<Rightarrow> 'a effect list" where
  "store_event_to_s3 env event_data =
     (case try_store_event_to_s3 env event_data of
        (None, tr) \<Rightarrow> tr
      | (Some e, tr) \<Rightarrow> tr @ [Print (''Warning: Failed to store event to S3: '' @ e)])"

definition store_event ::
  "'a backend \<Rightarrow> 'a pydict \<Rightarrow> (string + 'a pydict) \<times> 'a effect list" where
  "store_event env event_data =
     (case put_item env event_data of
        Some e \<Rightarrow> (Inl (''Failed to store event: '' @ e), [PutItem event_data])
      | None \<Rightarrow>
          (let tr = PutItem event_data # store_event_to_s3 env event_data
           in case map_of event_data ''event_id'' of
                None \<Rightarrow> (Inl (''Failed to store event: '' @ key_error ''event_id''), tr)
              | Some eid \<Rightarrow>
                  (Inr [(''status'', JStr ''success''), (''event_id'', eid)], tr)))"

subsection \<open>Reads\<close>

definition get_event ::
  "'a backend \<Rightarrow> string \<Rightarrow> (string + 'a pydict option) \<times> 'a effect list" where
  "get_event env eid =
     (case get_item env eid of
        Inl e \<Rightarrow> (Inl (''Failed to get event: '' @ e), [GetItem eid])
      | Inr item \<Rightarrow> (Inr item, [GetItem eid]))"

definition group_by_hour :: "'a pydict list \<Rightarrow> 'a pydict list" where
  "group_by_hour items = items"

definition group_by_week :: "'a pydict list \<Rightarrow> 'a pydict list" where
  "group_by_week items = items"

definition group_by_month :: "'a pydict list \<Rightarrow> 'a pydict list" where
  "group_by_month items = items"

text \<open>
  The range query answers with a response that may lack the key \<open>Items\<close>
  (\<open>response.get('Items', [])\<close>).
\<close>

definition get_analytics ::
  "'a backend \<Rightarrow> string \<Rightarrow> string \<Rightarrow> string \<Rightarrow> string \<Rightarrow>
   (string + 'a pydict list) \<times> 'a effect list" where
  "get_analytics env metric start_date end_date group_by =
     (case aggregations_query env metric start_date end_date of
        Inl e \<Rightarrow> (Inl (''Failed to get analytics: '' @ e), [Query metric start_date end_date])
      | Inr response \<Rightarrow>
          (let items = (case response of Some its \<Rightarrow> its | None \<Rightarrow> [])
           in (Inr (if group_by = ''hour'' then group_by_hour items
                    else if group_by = ''day'' then items
                    else if group_by = ''week'' then group_by_week items
                    else if group_by = ''month'' then group_by_month items
                    else items),
               [Query metric start_date end_date])))"

subsection \<open>SQL query execution\<close>

text \<open>
  \<open>_parse_athena_results\<close>. The header's cells are read with \<open>col['VarCharValue']\<close>,
  a \<open>KeyError\<close> where the key is absent; a data cell is read with
  \<open>col.get('VarCharValue', '')\<close> and stored under \<open>columns[i]\<close>, an \<open>IndexError\<close> where
  the row is longer than the header.
\<close>

fun columns_of :: "row \<Rightarrow> string + string list" where
  "columns_of [] = Inr []"
| "columns_of (None # cs) = Inl (key_error ''VarCharValue'')"
| "columns_of (Some v # cs) =
     (case columns_of cs of Inl e \<Rightarrow> Inl e | Inr vs \<Rightarrow> Inr (v # vs))"

definition cell_value :: "cell \<Rightarrow> string" where
  "cell_value c = (case c of Some v \<Rightarrow> v | None \<Rightarrow> [])"

fun parse_row ::
  "string list \<Rightarrow> row \<Rightarrow> (string \<times> string) list \<Rightarrow> string + (string \<times> string) list" where
  "parse_row columns [] row_data = Inr row_data"
| "parse_row [] (c # cs) row_data = Inl ''list index out of range''"
| "parse_row (k # ks) (c # cs) row_data =
     parse_row ks cs (AList.update k (cell_value c) row_data)"

fun parse_rows :: "string list \<Rightarrow> row list \<Rightarrow> string + (string \<times> string) list list" where
  "parse_rows columns [] = Inr []"
| "parse_rows columns (r # rs) =
     (case parse_row columns r [] of
        Inl e \<Rightarrow> Inl e
      | Inr row_data \<Rightarrow>
          (case parse_rows columns rs of
             Inl e \<Rightarrow> Inl e
           | Inr data \<Rightarrow> Inr (row_data # data)))"

definition parse_athena_results :: "row list \<Rightarrow> string + (string \<times> string) list list" where
  "parse_athena_results rows =
     (case rows of
        [] \<Rightarrow> Inr []
      | header # rest \<Rightarrow>
          (case columns_of header of
             Inl e \<Rightarrow> Inl e
           | Inr columns \<Rightarrow> parse_rows columns rest))"

record query_result =
  query_execution_id :: string
  status :: string
  results :: "(string \<times> string) list list"

definition max_attempts :: nat where
  "max_attempts = 30"

text \<open>
  The loop \<open>for attempt in range(max_attempts)\<close>, by recursion over the attempts that
  are left. It ends at the first attempt whose call raises or whose state is terminal;
  otherwise it sleeps and goes on, and with no attempt left the code after the loop
  raises the timeout.
\<close>

fun poll ::
  "'a backend \<Rightarrow> string \<Rightarrow> nat list \<Rightarrow> (string + query_result) \<times> 'a effect list" where
  "poll env qid [] = (Inl ''Query timeout'', [])"
| "poll env qid (attempt # rest) =
     (case get_query_execution env qid attempt of
        Inl e \<Rightarrow> (Inl e, [GetQueryExecution qid])
      | Inr status_response \<Rightarrow>
          (if State status_response = ''SUCCEEDED'' then
             (case get_query_results env qid 1000 of
                Inl e \<Rightarrow> (Inl e, [GetQueryExecution qid, GetQueryResults qid 1000])
              | Inr rows \<Rightarrow>
                  (case parse_athena_results rows of
                     Inl e \<Rightarrow> (Inl e, [GetQueryExecution qid, GetQueryResults qid 1000])
                   | Inr parsed \<Rightarrow>
                       (Inr \<lparr>query_execution_id = qid, status = ''success'', results = parsed\<rparr>,
                        [GetQueryExecution qid, GetQueryResults qid 1000])))
           else if State status_response \<in> set [''FAILED'', ''CANCELLED''] then
             (Inl (''Query failed: '' @
                   (case StateChangeReason status_response of
                      Some reason \<Rightarrow> reason
                    | None \<Rightarrow> ''Unknown error'')),
              [GetQueryExecution qid])
           else
             (case poll env qid rest of
                (r, tr) \<Rightarrow> (r, GetQueryExecution qid # Sleep 1 # tr))))"

text \<open>
  \<open>execute_athena_query\<close>: every exception of the body, the two that the loop raises
  itself included, is raised again under the prefix of the outer \<open>except\<close>.
\<close>

definition execute_athena_query ::
  "'a backend \<Rightarrow> 'a jvalue \<Rightarrow> (string + query_result) \<times> 'a effect list" where
  "execute_athena_query env sql =
     (case start_query_execution env sql of
        Inl e \<Rightarrow> (Inl (''Failed to execute Athena query: '' @ e), [StartQueryExecution sql])
      | Inr qid \<Rightarrow>
          (case poll env qid [0..<max_attempts] of
             (Inl e, tr) \<Rightarrow>
               (Inl (''Failed to execute Athena query: '' @ e), StartQueryExecution sql # tr)
           | (Inr r, tr) \<Rightarrow> (Inr r, StartQueryExecution sql # tr)))"

text \<open>
  Two notions for speaking about a run of the loop: an attempt is pending when its
  status call returns a state that is none of the three terminal ones, and \<open>waits qid k\<close>
  is the trace of \<open>k\<close> pending attempts, each a status call followed by a sleep of one
  second.
\<close>

definition pending :: "'a backend \<Rightarrow> string \<Rightarrow> nat \<Rightarrow> bool" where
  "pending env qid attempt =
     (case get_query_execution env qid attempt of
        Inl e \<Rightarrow> False
      | Inr status_response \<Rightarrow>
          State status_response \<noteq> ''SUCCEEDED'' \<and> State status_response \<noteq> ''FAILED''
          \<and> State status_response \<noteq> ''CANCELLED'')"

definition waits :: "string \<Rightarrow> nat \<Rightarrow> 'a effect list" where
  "waits qid k = concat (replicate k [GetQueryExecution qid, Sleep 1])"

subsection \<open>Batch storage\<close>

text \<open>
  The elements of \<open>events\<close> are dictionaries, as the signature \<open>List[Dict[str, Any]]\<close>
  has them, and distinct objects, as the elements of a decoded JSON array are: an
  assignment to one event in place leaves the others as they are.
\<close>

text \<open>
  One turn of the inner loop on one event at clock reading \<open>t\<close>: the exception that
  leaves it (if any), the dictionary after the assignments made in place, the ids
  appended to \<open>successful\<close>, the next clock reading and the trace. Both defaults are
  arguments of \<open>get\<close>, so they are computed whether the key is present or not:
  \<open>datetime.now()\<close> is read, and \<open>event['user_id']\<close> is a \<open>KeyError\<close> where absent.
\<close>

definition write_event ::
  "'a backend \<Rightarrow> nat \<Rightarrow> 'a pydict \<Rightarrow>
   string option \<times> 'a pydict \<times> 'a jvalue list \<times> nat \<times> 'a effect list" where
  "write_event env t event =
     (let ts = (case map_of event ''timestamp'' of
                  Some v \<Rightarrow> v
                | None \<Rightarrow> JStr (iso (now env t)));
          event1 = AList.update ''timestamp'' ts event
      in case map_of event1 ''user_id'' of
           None \<Rightarrow> (Some (key_error ''user_id''), event1, [], Suc t, [])
         | Some u \<Rightarrow>
             (let eid = (case map_of event1 ''event_id'' of
                           Some v \<Rightarrow> v
                         | None \<Rightarrow>
                             JStr (py_str env u @ ''_'' @ str_int (unix (now env (Suc t)))));
                  event2 = AList.update ''event_id'' eid event1
              in case writer_put_item env event2 of
                   Some e \<Rightarrow> (Some e, event2, [], Suc (Suc t), [WriterPutItem event2])
                 | None \<Rightarrow>
                     (None, event2, [eid], Suc (Suc t),
                      WriterPutItem event2 # store_event_to_s3 env event2)))"

text \<open>The loop \<open>for event in batch\<close>: an exception leaves the later events untouched.\<close>

fun write_events ::
  "'a backend \<Rightarrow> nat \<Rightarrow> 'a pydict list \<Rightarrow>
   string option \<times> 'a pydict list \<times> 'a jvalue list \<times> nat \<times> 'a effect list" where
  "write_events env t [] = (None, [], [], t, [])"
| "write_events env t (event # rest) =
     (case write_event env t event of
        (Some e, event', ids, t', tr) \<Rightarrow> (Some e, event' # rest, ids, t', tr)
      | (None, event', ids, t', tr) \<Rightarrow>
          (case write_events env t' rest of
             (r, rest', ids', t'', tr') \<Rightarrow> (r, event' # rest', ids @ ids', t'', tr @ tr')))"

text \<open>The items handed to \<open>writer.put_item\<close>, read off a trace.\<close>

definition writer_items :: "'a effect list \<Rightarrow> 'a pydict list" where
  "writer_items tr =
     List.map_filter (\<lambda>x. case x of WriterPutItem item \<Rightarrow> Some item | _ \<Rightarrow> None) tr"

text \<open>
  The statement \<open>with self.events_table.batch_writer() as writer\<close>. The writer buffers
  the items and sends them when the buffer is full and when the block is left, on an
  exception too; an exception of that last send replaces the one of the body.
\<close>

definition write_batch ::
  "'a backend \<Rightarrow> nat \<Rightarrow> 'a pydict list \<Rightarrow>
   string option \<times> 'a pydict list \<times> 'a jvalue list \<times> nat \<times> 'a effect list" where
  "write_batch env t batch =
     (case write_events env t batch of
        (r, batch', ids, t', tr) \<Rightarrow>
          (let items = writer_items tr
           in (case writer_exit env items of Some e \<Rightarrow> Some e | None \<Rightarrow> r,
               batch', ids, t', BatchWriter # tr @ [WriterExit items])))"

record 'a failure =
  event :: "'a pydict"
  error :: string

record 'a batch_result =
  successful :: "'a jvalue list"
  failed :: "'a failure list"

definition batch_size :: nat where
  "batch_size = 25"

text \<open>\<open>range(i, n, step)\<close> for a positive step.\<close>

function range_step :: "nat \<Rightarrow> nat \<Rightarrow> nat \<Rightarrow> nat list" where
  "range_step i n step =
     (if 0 < step \<and> i < n then i # range_step (i + step) n step else [])"
  by pat_completeness auto
termination
  by (relation "measure (\<lambda>(i, n, step). n - i)") auto

declare range_step.simps [simp del]

text \<open>The slices \<open>events[i:i + batch_size]\<close> the outer loop takes.\<close>

definition batches :: "'b list \<Rightarrow> 'b list list" where
  "batches events =
     map (\<lambda>i. take batch_size (drop i events)) (range_step 0 (length events) batch_size)"

text \<open>
  The outer loop, over the slices. Its state is the clock reading, the two lists and
  the trace. The \<open>except\<close> appends one entry for every event of the slice, each with the
  message of the one exception.
\<close>

fun batch_loop ::
  "'a backend \<Rightarrow> 'a pydict list list \<Rightarrow>
   nat \<times> 'a jvalue list \<times> 'a failure list \<times> 'a effect list \<Rightarrow>
   nat \<times> 'a jvalue list \<times> 'a failure list \<times> 'a effect list" where
  "batch_loop env [] st = st"
| "batch_loop env (batch # rest) (t, succ, fl, tr) =
     (case write_batch env t batch of
        (exc, batch', ids, t', tr') \<Rightarrow>
          batch_loop env rest
            (t', succ @ ids,
             (case exc of
                None \<Rightarrow> fl
              | Some e \<Rightarrow> fl @ map (\<lambda>ev. \<lparr>event = ev, error = e\<rparr>) batch'),
             tr @ tr'))"

definition store_events_batch ::
  "'a backend \<Rightarrow> 'a pydict list \<Rightarrow> 'a batch_result \<times> 'a effect list" where
  "store_events_batch env events =
     (case batch_loop env (batches events) (0, [], [], []) of
        (t, succ, fl, tr) \<Rightarrow> (\<lparr>successful = succ, failed = fl\<rparr>, tr))"

text \<open>
  Notions for speaking about one turn of the inner loop: the event after the first
  assignment, and the id the second assignment stores.
\<close>

definition stamped :: "'a backend \<Rightarrow> nat \<Rightarrow> 'a pydict \<Rightarrow> 'a pydict" where
  "stamped env t ev =
     AList.update ''timestamp''
       (case map_of ev ''timestamp'' of Some v \<Rightarrow> v | None \<Rightarrow> JStr (iso (now env t))) ev"

definition id_for :: "'a backend \<Rightarrow> nat \<Rightarrow> 'a pydict \<Rightarrow> 'a jvalue \<Rightarrow> 'a jvalue" where
  "id_for env t ev u =
     (case map_of ev ''event_id'' of
        Some v \<Rightarrow> v
      | None \<Rightarrow> JStr (py_str env u @ ''_'' @ str_int (unix (now env (Suc t)))))"

text \<open>
  What one slice's run leaves behind, relative to the slice as it was passed in: the
  dictionaries are the same events with at most the two metadata keys added (every
  entry of the original is still there), and the ids appended to \<open>successful\<close> are the
  \<open>event_id\<close>s of the first events of the slice, of all of them when no exception
  left the block.
\<close>

definition chunk_shape ::
  "'a pydict list \<Rightarrow> string option \<Rightarrow> 'a pydict list \<Rightarrow> 'a jvalue list \<Rightarrow> bool" where
  "chunk_shape batch r batch' ids \<longleftrightarrow>
     length batch' = length batch
     \<and> (\<forall>i<length batch. map_of (batch ! i) \<subseteq>\<^sub>m map_of (batch' ! i))
     \<and> length ids \<le> length batch
     \<and> (\<forall>i<length ids. map_of (batch' ! i) ''event_id'' = Some (ids ! i))
     \<and> (r = None \<longrightarrow> length ids = length batch)"

text \<open>
  The run of the \<open>k\<close>-th slice within a call of \<open>store_events_batch\<close>: the state the
  outer loop has reached before it, and from the slice's run the exception caught (if
  any), the slice's events after the run, the ids it appended to \<open>successful\<close>, and the
  entries it appended to \<open>failed\<close>.
\<close>

definition state_before ::
  "'a backend \<Rightarrow> 'a pydict list \<Rightarrow> nat \<Rightarrow>
   nat \<times> 'a jvalue list \<times> 'a failure list \<times> 'a effect list" where
  "state_before env events k = batch_loop env (take k (batches events)) (0, [], [], [])"

definition chunk_run ::
  "'a backend \<Rightarrow> 'a pydict list \<Rightarrow> nat \<Rightarrow>
   string option \<times> 'a pydict list \<times> 'a jvalue list \<times> nat \<times> 'a effect list" where
  "chunk_run env events k =
     write_batch env (fst (state_before env events k)) (batches events ! k)"

definition chunk_error :: "'a backend \<Rightarrow> 'a pydict list \<Rightarrow> nat \<Rightarrow> string option" where
  "chunk_error env events k = fst (chunk_run env events k)"

definition chunk_events :: "'a backend \<Rightarrow> 'a pydict list \<Rightarrow> nat \<Rightarrow> 'a pydict list" where
  "chunk_events env events k = fst (snd (chunk_run env events k))"

definition chunk_ids :: "'a backend \<Rightarrow> 'a pydict list \<Rightarrow> nat \<Rightarrow> 'a jvalue list" where
  "chunk_ids env events k = fst (snd (snd (chunk_run env events k)))"

definition chunk_failures :: "'a backend \<Rightarrow> 'a pydict list \<Rightarrow> nat \<Rightarrow> 'a failure list" where
  "chunk_failures env events k =
     (case chunk_error env events k of
        None \<Rightarrow> []
      | Some e \<Rightarrow> map (\<lambda>ev. \<lparr>event = ev, error = e\<rparr>) (chunk_events env events k))"

section \<open>Request router\<close>

text \<open>
  A handler returns either a body (served with status 200) or the pair
  \<open>{"error": msg}, code\<close>. The handlers that share a name with the service function
  they call carry the suffix \<open>_handler\<close>.
\<close>

datatype 'b response = Body 'b | Err string nat

text \<open>
  What \<open>app.current_event.json_body\<close> gives for \<open>POST /events\<close>. A body that decodes to
  a JSON object is a dictionary; it may as well decode to an array or a string. \<open>Scalar\<close>
  stands for a value that is no container at all, and carries the name of its Python
  type: \<open>NoneType\<close> for an absent, empty or \<open>null\<close> body, \<open>int\<close> or \<open>float\<close> for a
  number, \<open>bool\<close> for a boolean. A body that does not decode raises in the decoder,
  with the message that \<open>Undecodable\<close> carries.
\<close>

datatype 'a json_body =
    Object "'a pydict"
  | Array "'a jvalue list"
  | String string
  | Scalar string
  | Undecodable string

text \<open>Python's \<open>needle in haystack\<close> on strings: a contiguous occurrence.\<close>

fun starts_with :: "string \<Rightarrow> string \<Rightarrow> bool" where
  "starts_with [] ys = True"
| "starts_with (x # xs) [] = False"
| "starts_with (x # xs) (y # ys) = (x = y \<and> starts_with xs ys)"

fun is_substring :: "string \<Rightarrow> string \<Rightarrow> bool" where
  "is_substring needle [] = (needle = [])"
| "is_substring needle (c # cs) = (starts_with needle (c # cs) \<or> is_substring needle cs)"

definition not_iterable :: "string \<Rightarrow> string" where
  "not_iterable ty = ''argument of type '' @ key_error ty @ '' is not iterable''"

text \<open>
  The test \<open>field in event_data\<close>: a key of a dictionary, an element of a list, a
  substring of a string, and a \<open>TypeError\<close> on every other value.
\<close>

definition has_field :: "string \<Rightarrow> 'a json_body \<Rightarrow> string + bool" where
  "has_field field event_data =
     (case event_data of
        Object d \<Rightarrow> Inr (map_of d field \<noteq> None)
      | Array xs \<Rightarrow> Inr (JStr field \<in> set xs)
      | String s \<Rightarrow> Inr (is_substring field s)
      | Scalar ty \<Rightarrow> Inl (not_iterable ty)
      | Undecodable e \<Rightarrow> Inl e)"

text \<open>
  The loop over \<open>required_fields\<close>: the first field that the test does not find, unless
  the test raises.
\<close>

fun first_missing :: "string list \<Rightarrow> 'a json_body \<Rightarrow> string + string option" where
  "first_missing [] event_data = Inr None"
| "first_missing (field # rest) event_data =
     (case has_field field event_data of
        Inl e \<Rightarrow> Inl e
      | Inr present \<Rightarrow>
          (if \<not> present then Inr (Some field) else first_missing rest event_data))"

definition required_fields :: "string list" where
  "required_fields = [''user_id'', ''event_type'']"

text \<open>
  The assignment \<open>event_data[key] = v\<close>: only a dictionary takes a string key.
\<close>

definition set_item :: "string \<Rightarrow> 'a jvalue \<Rightarrow> 'a json_body \<Rightarrow> string + 'a pydict" where
  "set_item k v event_data =
     (case event_data of
        Object d \<Rightarrow> Inr (AList.update k v d)
      | Array xs \<Rightarrow> Inl ''list indices must be integers or slices, not str''
      | String s \<Rightarrow> Inl (key_error ''str'' @ '' object does not support item assignment'')
      | Scalar ty \<Rightarrow> Inl (key_error ty @ '' object does not support item assignment'')
      | Undecodable e \<Rightarrow> Inl e)"

text \<open>The \<open>except\<close> of \<open>create_event\<close>: log, count, and answer 500 with the message.\<close>

definition create_event_failed ::
  "string \<Rightarrow> 'a effect list \<Rightarrow> 'a pydict response \<times> 'a effect list" where
  "create_event_failed e tr =
     (Err e 500,
      tr @ [LogError (''Error creating event: '' @ e), Metric ''EventsCreatedErrors'' 1])"

text \<open>
  \<open>create_event\<close>. Reading the body is the first statement of the \<open>try\<close>. After the
  validation both metadata keys are assigned, whatever the body holds under them. The
  clock is read twice.
\<close>

definition create_event ::
  "'a backend \<Rightarrow> 'a json_body \<Rightarrow> 'a pydict response \<times> 'a effect list" where
  "create_event env body =
     (case body of
        Undecodable e \<Rightarrow> create_event_failed e []
      | _ \<Rightarrow>
          (case first_missing required_fields body of
             Inl e \<Rightarrow> create_event_failed e []
           | Inr (Some field) \<Rightarrow> (Err (''Missing required field: '' @ field) 400, [])
           | Inr None \<Rightarrow>
               (case set_item ''timestamp'' (JStr (iso (now env 0))) body of
                  Inl e \<Rightarrow> create_event_failed e []
                | Inr event1 \<Rightarrow>
                    (case map_of event1 ''user_id'' of
                       None \<Rightarrow> create_event_failed (key_error ''user_id'') []
                     | Some u \<Rightarrow>
                         (let eid = JStr (py_str env u @ ''_'' @ str_int (unix (now env 1)));
                              event_data = AList.update ''event_id'' eid event1
                          in case store_event env event_data of
                               (Inl e, tr) \<Rightarrow> create_event_failed e tr
                             | (Inr result, tr) \<Rightarrow>
                                 (Body [(''status'', JStr ''success''), (''event_id'', eid),
                                        (''message'', JStr ''Event created successfully'')],
                                  tr @ [Metric ''EventsCreated'' 1,
                                        LogInfo ''Event created'']))))))"

text \<open>\<open>get_event\<close> of the router; \<open>not event\<close> holds of \<open>None\<close> and of the empty dictionary.\<close>

definition get_event_handler ::
  "'a backend \<Rightarrow> string \<Rightarrow> 'a pydict response \<times> 'a effect list" where
  "get_event_handler env eid =
     (case get_event env eid of
        (Inl e, tr) \<Rightarrow> (Err e 500, tr @ [LogError (''Error getting event: '' @ e)])
      | (Inr None, tr) \<Rightarrow> (Err ''Event not found'' 404, tr)
      | (Inr (Some ev), tr) \<Rightarrow>
          (if ev = [] then (Err ''Event not found'' 404, tr) else (Body ev, tr)))"

text \<open>\<open>execute_query\<close> of the router, on a body that decoded to a JSON object.\<close>

definition execute_query ::
  "'a backend \<Rightarrow> 'a pydict \<Rightarrow> query_result response \<times> 'a effect list" where
  "execute_query env query_data =
     (case map_of query_data ''sql'' of
        None \<Rightarrow> (Err ''Missing required field: sql'' 400, [])
      | Some sql \<Rightarrow>
          (case execute_athena_query env sql of
             (Inl e, tr) \<Rightarrow> (Err e 500, tr @ [LogError (''Error executing query: '' @ e)])
           | (Inr result, tr) \<Rightarrow>
               (Body \<lparr>query_execution_id = query_execution_id result,
                      status = ''success'',
                      results = results result\<rparr>,
                tr @ [Metric ''AthenaQueries'' 1])))"

section \<open>Sample inputs\<close>

text \<open>
  A backend in which every operation succeeds, the clock advances by one second per
  reading and a submitted query stays \<open>RUNNING\<close>; the concrete instances below change
  one operation at a time.
\<close>

definition sample_backend :: "unit backend" where
  "sample_backend =
     \<lparr>str_other = (\<lambda>_. ''None''),
      now = (\<lambda>n. \<lparr>iso = ''2024-01-05T10:00:00'', unix = 1704448800 + int n\<rparr>),
      fromisoformat = (\<lambda>_. Inr \<lparr>year = 2024, month = 1, day = 5\<rparr>),
      put_item = (\<lambda>_. None),
      put_object = (\<lambda>_ _. None),
      get_item = (\<lambda>_. Inr None),
      writer_put_item = (\<lambda>_. None),
      writer_exit = (\<lambda>_. None),
      aggregations_query = (\<lambda>_ _ _. Inr (Some [])),
      start_query_execution = (\<lambda>_. Inr ''q-1''),
      get_query_execution = (\<lambda>_ _. Inr \<lparr>State = ''RUNNING'', StateChangeReason = None\<rparr>),
      get_query_results = (\<lambda>_ _. Inr [])\<rparr>"

definition sample_event :: "unit pydict" where
  "sample_event =
     [(''user_id'', JStr ''u1''), (''event_type'', JStr ''click''),
      (''timestamp'', JStr ''2024-01-05T10:00:00''), (''event_id'', JStr ''u1_1704448800'')]"

definition sample_items :: "unit pydict list" where
  "sample_items =
     [[(''metric'', JStr ''page_views''), (''date'', JStr ''2024-01-02''), (''value'', JOther ())],
      [(''metric'', JStr ''page_views''), (''date'', JStr ''2024-01-01''), (''value'', JOther ())]]"

definition sample_rows :: "row list" where
  "sample_rows =
     [[Some ''id'', Some ''name''], [Some ''1'', Some ''ann''], [Some ''2'', None]]"

definition supplied_event :: "unit pydict" where
  "supplied_event =
     [(''user_id'', JStr ''u1''), (''event_type'', JStr ''click''),
      (''timestamp'', JStr ''2020-01-01T00:00:00''), (''event_id'', JStr ''custom-1'')]"

definition overwritten_event :: "unit pydict" where
  "overwritten_event =
     [(''user_id'', JStr ''u1''), (''event_type'', JStr ''click''),
      (''timestamp'', JStr ''2024-01-05T10:00:00''), (''event_id'', JStr ''u1_1704448801'')]"

definition click_event :: "unit pydict" where
  "click_event = [(''user_id'', JStr ''u1''), (''event_type'', JStr ''click'')]"

definition throttling_backend :: "unit backend" where
  "throttling_backend =
     sample_backend\<lparr>writer_exit :=
       (\<lambda>items. if length items < 25 then Some ''ProvisionedThroughputExceededException''
                 else None)\<rparr>"

definition stored_click_event :: "unit pydict" where
  "stored_click_event =
     [(''user_id'', JStr ''u1''), (''event_type'', JStr ''click''),
      (''timestamp'', JStr ''2024-01-05T10:00:00''), (''event_id'', JStr ''u1_1704448801'')]"

section \<open>Event storage: the archival write is best effort\<close>

text \<open>
  Claim C1. Whenever the point-store put succeeds, \<open>store_event\<close> returns
  \<open>{status: success, event_id}\<close>, whatever the archival write does: the result is the
  same for every behaviour \<open>po\<close> of the object store and \<open>fi\<close> of the timestamp parser.
  The trace is the put followed by the archival attempt, and an exception \<open>e\<close> of that
  attempt ends as one printed warning, never as a failure of \<open>store_event\<close>. The event
  carries \<open>event_id\<close>: the point store is keyed by it and the router assigns it before
  the call; it is the value the result returns.
\<close>

theorem store_event_archival_best_effort:
  assumes "put_item env ev = None" and "map_of ev ''event_id'' = Some eid"
  shows "fst (store_event (env\<lparr>put_object := po, fromisoformat := fi\<rparr>) ev) =
           Inr [(''status'', JStr ''success''), (''event_id'', eid)]
       \<and> fst (store_event env ev) = Inr [(''status'', JStr ''success''), (''event_id'', eid)]
       \<and> snd (store_event env ev) = PutItem ev # store_event_to_s3 env ev
       \<and> (\<forall>e tr. try_store_event_to_s3 env ev = (Some e, tr) \<longrightarrow>
              store_event_to_s3 env ev =
                tr @ [Print (''Warning: Failed to store event to S3: '' @ e)])"
  using assms by (simp add: store_event_def store_event_to_s3_def)

theorem store_event_archival_best_effort_witness:
  "fst (store_event (sample_backend\<lparr>put_object := (\<lambda>_ _. Some ''AccessDenied'')\<rparr>) sample_event) =
     Inr [(''status'', JStr ''success''), (''event_id'', JStr ''u1_1704448800'')]
   \<and> fst (store_event sample_backend sample_event) =
     Inr [(''status'', JStr ''success''), (''event_id'', JStr ''u1_1704448800'')]
   \<and> snd (store_event (sample_backend\<lparr>put_object := (\<lambda>_ _. Some ''AccessDenied'')\<rparr>) sample_event) =
     [PutItem sample_event,
      PutObject ''events/year=2024/month=01/day=05/u1_1704448800.json'' sample_event,
      Print ''Warning: Failed to store event to S3: AccessDenied'']"
proof -
  let ?env = "sample_backend\<lparr>put_object := (\<lambda>_ _. Some ''AccessDenied'')\<rparr>"
  have put: "put_item ?env sample_event = None"
    by (simp add: sample_backend_def)
  have eid: "map_of sample_event ''event_id'' = Some (JStr ''u1_1704448800'')"
    by (simp add: sample_event_def)
  have key: "s3_key \<lparr>year = 2024, month = 1, day = 5\<rparr> ''u1_1704448800'' =
      ''events/year=2024/month=01/day=05/u1_1704448800.json''"
    by (simp add: s3_key_def fmt_02d_def str_nat.simps digit_def)
  have attempt: "try_store_event_to_s3 ?env sample_event =
      (Some ''AccessDenied'',
       [PutObject ''events/year=2024/month=01/day=05/u1_1704448800.json'' sample_event])"
    unfolding try_store_event_to_s3_def
    by (simp add: sample_backend_def sample_event_def py_str_def key [simplified])
  have same: "sample_backend\<lparr>put_object := put_object sample_backend,
      fromisoformat := fromisoformat sample_backend\<rparr> = sample_backend"
    by simp
  note inst = store_event_archival_best_effort [OF put eid]
  from inst [where po = "put_object sample_backend" and fi = "fromisoformat sample_backend"]
    attempt
  show ?thesis
    by (simp add: same)
qed

section \<open>Reads\<close>

text \<open>
  Claim C8. Whatever items the aggregation range query returns, \<open>get_analytics\<close>
  returns them unchanged and in the order received: for \<open>day\<close>, for the regroupings
  \<open>hour\<close>, \<open>week\<close> and \<open>month\<close>, which pass the list through, and in fact for every
  value of \<open>group_by\<close>. The only effect is the one range query.
\<close>

theorem get_analytics_returns_items_unchanged:
  assumes "aggregations_query env metric start_date end_date = Inr (Some items)"
  shows "fst (get_analytics env metric start_date end_date ''day'') = Inr items
       \<and> fst (get_analytics env metric start_date end_date ''hour'') = Inr items
       \<and> fst (get_analytics env metric start_date end_date ''week'') = Inr items
       \<and> fst (get_analytics env metric start_date end_date ''month'') = Inr items
       \<and> (\<forall>group_by. get_analytics env metric start_date end_date group_by =
              (Inr items, [Query metric start_date end_date]))"
  using assms
  by (simp add: get_analytics_def group_by_hour_def group_by_week_def group_by_month_def)

theorem get_analytics_returns_items_unchanged_witness:
  "fst (get_analytics (sample_backend\<lparr>aggregations_query := (\<lambda>_ _ _. Inr (Some sample_items))\<rparr>)
          ''page_views'' ''2024-01-01'' ''2024-01-07'' ''day'') = Inr sample_items
   \<and> fst (get_analytics (sample_backend\<lparr>aggregations_query := (\<lambda>_ _ _. Inr (Some sample_items))\<rparr>)
          ''page_views'' ''2024-01-01'' ''2024-01-07'' ''week'') = Inr sample_items"
proof -
  let ?env = "sample_backend\<lparr>aggregations_query := (\<lambda>_ _ _. Inr (Some sample_items))\<rparr>"
  have q: "aggregations_query ?env ''page_views'' ''2024-01-01'' ''2024-01-07'' = Inr (Some sample_items)"
    by simp
  from get_analytics_returns_items_unchanged [OF q] show ?thesis
    by simp
qed

text \<open>
  Claim C9. For an id the point store does not hold, the service returns \<open>None\<close>, a
  normal result and not an exception, and the router answers 404 with
  \<open>Event not found\<close>. A present event is returned as it is (an item of the point store
  is never the empty dictionary, which \<open>not event\<close> would take for absent). A failure
  of the lookup is the third, distinct outcome: an exception in the service, 500 in the
  router.
\<close>

theorem get_event_absent_is_not_found:
  "(get_item env eid = Inr None \<longrightarrow>
      get_event env eid = (Inr None, [GetItem eid])
      \<and> get_event_handler env eid = (Err ''Event not found'' 404, [GetItem eid]))
   \<and> (\<forall>ev. get_item env eid = Inr (Some ev) \<and> ev \<noteq> [] \<longrightarrow>
      get_event env eid = (Inr (Some ev), [GetItem eid])
      \<and> get_event_handler env eid = (Body ev, [GetItem eid]))
   \<and> (\<forall>e. get_item env eid = Inl e \<longrightarrow>
      fst (get_event env eid) = Inl (''Failed to get event: '' @ e)
      \<and> fst (get_event_handler env eid) = Err (''Failed to get event: '' @ e) 500)"
  by (simp add: get_event_def get_event_handler_def)

theorem get_event_absent_is_not_found_witness:
  "get_event_handler sample_backend ''nonexistent'' = (Err ''Event not found'' 404, [GetItem ''nonexistent''])
   \<and> fst (get_event sample_backend ''nonexistent'') = Inr None
   \<and> get_event_handler (sample_backend\<lparr>get_item := (\<lambda>_. Inr (Some sample_event))\<rparr>) ''u1_1704448800'' =
       (Body sample_event, [GetItem ''u1_1704448800''])
   \<and> fst (get_event_handler (sample_backend\<lparr>get_item := (\<lambda>_. Inl ''ThrottlingException'')\<rparr>) ''u1_1704448800'') =
       Err ''Failed to get event: ThrottlingException'' 500"
proof -
  have a: "get_item sample_backend ''nonexistent'' = Inr None"
    by (simp add: sample_backend_def)
  have b: "get_item (sample_backend\<lparr>get_item := (\<lambda>_. Inr (Some sample_event))\<rparr>) ''u1_1704448800'' =
      Inr (Some sample_event) \<and> sample_event \<noteq> []"
    by (simp add: sample_event_def)
  have c: "get_item (sample_backend\<lparr>get_item := (\<lambda>_. Inl ''ThrottlingException'')\<rparr>) ''u1_1704448800'' =
      Inl ''ThrottlingException''"
    by simp
  from get_event_absent_is_not_found [of sample_backend "''nonexistent''"] a
  have 1: "get_event_handler sample_backend ''nonexistent'' =
      (Err ''Event not found'' 404, [GetItem ''nonexistent''])
      \<and> fst (get_event sample_backend ''nonexistent'') = Inr None"
    by simp
  from get_event_absent_is_not_found
    [of "sample_backend\<lparr>get_item := (\<lambda>_. Inr (Some sample_event))\<rparr>" "''u1_1704448800''"] b
  have 2: "get_event_handler (sample_backend\<lparr>get_item := (\<lambda>_. Inr (Some sample_event))\<rparr>) ''u1_1704448800'' =
       (Body sample_event, [GetItem ''u1_1704448800''])"
    by blast
  from get_event_absent_is_not_found
    [of "sample_backend\<lparr>get_item := (\<lambda>_. Inl ''ThrottlingException'')\<rparr>" "''u1_1704448800''"] c
  have 3: "fst (get_event_handler (sample_backend\<lparr>get_item := (\<lambda>_. Inl ''ThrottlingException'')\<rparr>) ''u1_1704448800'') =
       Err ''Failed to get event: ThrottlingException'' 500"
    by simp
  from 1 2 3 show ?thesis by simp
qed

section \<open>Validation at the router\<close>

text \<open>
  What \<open>create_event\<close> does before it reaches the service, by the kind of body. A JSON
  object that lacks \<open>user_id\<close> or \<open>event_type\<close> is answered 400 with a message that
  names one field, the first missing one in the order \<open>user_id\<close>, \<open>event_type\<close>, and
  the trace is empty: neither the service nor any backend is reached. A body that is no
  container (absent, \<open>null\<close>, a number, a boolean) and a body that does not decode are
  answered 500 with the exception's message. An array or a string never reaches the point
  store.
\<close>

theorem create_event_missing_field:
  "(map_of d ''user_id'' = None \<or> map_of d ''event_type'' = None \<longrightarrow>
      create_event env (Object d) =
        (Err (''Missing required field: '' @
              (if map_of d ''user_id'' = None then ''user_id'' else ''event_type'')) 400,
         []))
   \<and> create_event env (Scalar ty) =
        (Err (not_iterable ty) 500,
         [LogError (''Error creating event: '' @ not_iterable ty),
          Metric ''EventsCreatedErrors'' 1])
   \<and> create_event env (Undecodable e) =
        (Err e 500, [LogError (''Error creating event: '' @ e), Metric ''EventsCreatedErrors'' 1])
   \<and> (\<forall>item. PutItem item \<notin> set (snd (create_event env (Array xs)))
             \<and> PutItem item \<notin> set (snd (create_event env (String s))))"
  by (auto simp add: create_event_def create_event_failed_def required_fields_def has_field_def
      set_item_def)

theorem create_event_missing_field_witness:
  "create_event sample_backend (Object [(''event_type'', JStr ''click'')]) =
     (Err ''Missing required field: user_id'' 400, [])
   \<and> create_event sample_backend (Object [(''user_id'', JStr ''u1'')]) =
     (Err ''Missing required field: event_type'' 400, [])
   \<and> create_event sample_backend (Object []) = (Err ''Missing required field: user_id'' 400, [])"
  using create_event_missing_field [of "[(''event_type'', JStr ''click'')]" sample_backend]
    create_event_missing_field [of "[(''user_id'', JStr ''u1'')]" sample_backend]
    create_event_missing_field [of "[]" sample_backend]
  by simp

text \<open>
  Claim C10 says 400, with the name of the first missing field, for every body of
  \<open>POST /events\<close> that lacks \<open>user_id\<close> or \<open>event_type\<close>. For a request without a body,
  or with the body \<open>null\<close>, \<open>json_body\<close> is \<open>None\<close>: it lacks both fields, and the
  membership test of the validation loop raises \<open>TypeError\<close> on it, a case the loop does
  not provide for. The \<open>except\<close> of the handler answers 500 with the text of the
  exception, not the 400 that names \<open>user_id\<close>. The service is not reached.
\<close>

theorem create_event_null_body_answers_500:
  "create_event sample_backend (Scalar ''NoneType'') =
     (Err (not_iterable ''NoneType'') 500,
      [LogError (''Error creating event: '' @ not_iterable ''NoneType''),
       Metric ''EventsCreatedErrors'' 1])
   \<and> fst (create_event sample_backend (Scalar ''NoneType'')) \<noteq>
       Err ''Missing required field: user_id'' 400
   \<and> fst (create_event sample_backend (Scalar ''NoneType'')) \<noteq>
       Err ''Missing required field: event_type'' 400"
  by (simp add: create_event_def create_event_failed_def required_fields_def has_field_def)

section \<open>SQL query execution: the polling loop\<close>

text \<open>
  A pending attempt costs one status call and one sleep and leaves the outcome to the
  attempts that follow; so a run of pending attempts is a prefix of the trace, and the
  outcome is decided by the first attempt that is not pending.
\<close>

lemma poll_pending_Cons:
  "pending env qid a \<Longrightarrow>
   poll env qid (a # rest) =
     (fst (poll env qid rest), GetQueryExecution qid # Sleep 1 # snd (poll env qid rest))"
  by (auto simp add: pending_def split: sum.splits prod.splits)

lemma poll_pending_prefix:
  "(\<And>a. a \<in> set pre \<Longrightarrow> pending env qid a) \<Longrightarrow>
   poll env qid (pre @ rest) =
     (fst (poll env qid rest), waits qid (length pre) @ snd (poll env qid rest))"
proof (induction pre)
  case Nil
  show ?case by (simp add: waits_def)
next
  case (Cons a pre)
  have "pending env qid a" using Cons.prems by simp
  moreover have "poll env qid (pre @ rest) =
     (fst (poll env qid rest), waits qid (length pre) @ snd (poll env qid rest))"
    using Cons.IH Cons.prems by simp
  ultimately show ?case
    by (simp add: poll_pending_Cons waits_def del: poll.simps)
qed

lemma poll_first_terminal:
  assumes "k < n" and "\<And>j. j < k \<Longrightarrow> pending env qid j"
  shows "poll env qid [0..<n] =
     (fst (poll env qid (k # [Suc k..<n])), waits qid k @ snd (poll env qid (k # [Suc k..<n])))"
proof -
  have "[0..<n] = [0..<k] @ k # [Suc k..<n]"
    using assms(1)
    by (metis less_imp_le_nat upt_add_eq_append le_add_diff_inverse upt_conv_Cons zero_le)
  moreover have "\<And>a. a \<in> set [0..<k] \<Longrightarrow> pending env qid a"
    using assms(2) by simp
  ultimately show ?thesis
    using poll_pending_prefix [of "[0..<k]" env qid "k # [Suc k..<n]"] by simp
qed

lemma poll_all_pending:
  assumes "\<And>j. j < n \<Longrightarrow> pending env qid j"
  shows "poll env qid [0..<n] = (Inl ''Query timeout'', waits qid n)"
  using poll_pending_prefix [of "[0..<n]" env qid "[]"] assms by simp

lemma count_poll:
  "count_list (snd (poll env qid xs)) (GetQueryExecution qid) \<le> length xs"
  by (induction xs) (auto split: sum.splits prod.splits)

lemma sleep_poll:
  "Sleep n \<in> set (snd (poll env qid xs)) \<Longrightarrow> n = 1"
  by (induction xs) (auto split: sum.splits prod.splits if_splits)


lemma execute_athena_query_trace:
  "start_query_execution env sql = Inr qid \<Longrightarrow>
   snd (execute_athena_query env sql) =
     StartQueryExecution sql # snd (poll env qid [0..<max_attempts])"
  by (simp add: execute_athena_query_def split: prod.splits sum.splits)

text \<open>
  Claim C6. The loop is bounded. For every backend the status is polled at most 30
  times and every sleep is of one time unit; the function is total, so the call always
  returns. If all 30 attempts find the query in a non-terminal state, the call fails
  with the timeout message after exactly 30 polls, each followed by a sleep, and the
  router answers 500. (The code has a single exception class: the timeout is the
  exception with the message \<open>Query timeout\<close>, under the prefix of the outer handler.)
\<close>

theorem execute_athena_query_polling_is_bounded:
  assumes "start_query_execution env sql = Inr qid"
  shows "count_list (snd (execute_athena_query env sql)) (GetQueryExecution qid) \<le> 30
       \<and> (\<forall>n. Sleep n \<in> set (snd (execute_athena_query env sql)) \<longrightarrow> n = 1)
       \<and> ((\<forall>j<30. pending env qid j) \<longrightarrow>
            execute_athena_query env sql =
              (Inl ''Failed to execute Athena query: Query timeout'',
               StartQueryExecution sql # waits qid 30)
            \<and> (\<forall>query_data. map_of query_data ''sql'' = Some sql \<longrightarrow>
                 fst (execute_query env query_data) =
                   Err ''Failed to execute Athena query: Query timeout'' 500))"
proof -
  have tr: "snd (execute_athena_query env sql) =
      StartQueryExecution sql # snd (poll env qid [0..<max_attempts])"
    using assms by (rule execute_athena_query_trace)
  have "count_list (snd (poll env qid [0..<max_attempts])) (GetQueryExecution qid) \<le> 30"
    using count_poll [of env qid "[0..<max_attempts]"] by (simp add: max_attempts_def)
  then have bound: "count_list (snd (execute_athena_query env sql)) (GetQueryExecution qid) \<le> 30"
    by (simp add: tr)
  have sleeps: "\<forall>n. Sleep n \<in> set (snd (execute_athena_query env sql)) \<longrightarrow> n = 1"
    using sleep_poll [of _ env qid "[0..<max_attempts]"] by (auto simp add: tr)
  have timeout: "execute_athena_query env sql =
        (Inl ''Failed to execute Athena query: Query timeout'',
         StartQueryExecution sql # waits qid 30)
      \<and> (\<forall>query_data. map_of query_data ''sql'' = Some sql \<longrightarrow>
           fst (execute_query env query_data) =
             Err ''Failed to execute Athena query: Query timeout'' 500)"
    if "\<forall>j<30. pending env qid j"
  proof -
    have "poll env qid [0..<max_attempts] = (Inl ''Query timeout'', waits qid 30)"
      using poll_all_pending [of 30 env qid] that by (simp add: max_attempts_def)
    then have "execute_athena_query env sql =
        (Inl ''Failed to execute Athena query: Query timeout'',
         StartQueryExecution sql # waits qid 30)"
      using assms by (simp add: execute_athena_query_def)
    then show ?thesis
      by (simp add: execute_query_def)
  qed
  from bound sleeps timeout show ?thesis
    by blast
qed

theorem execute_athena_query_polling_is_bounded_witness:
  "execute_athena_query sample_backend (JStr ''SELECT 1'') =
     (Inl ''Failed to execute Athena query: Query timeout'',
      StartQueryExecution (JStr ''SELECT 1'') # waits ''q-1'' 30)
   \<and> count_list (snd (execute_athena_query sample_backend (JStr ''SELECT 1'')))
        (GetQueryExecution ''q-1'') \<le> 30
   \<and> fst (execute_query sample_backend [(''sql'', JStr ''SELECT 1'')]) =
        Err ''Failed to execute Athena query: Query timeout'' 500"
proof -
  have start: "start_query_execution sample_backend (JStr ''SELECT 1'') = Inr ''q-1''"
    by (simp add: sample_backend_def)
  have running: "\<forall>j<30. pending sample_backend ''q-1'' j"
    by (simp add: pending_def sample_backend_def)
  have body: "map_of [(''sql'', JStr ''SELECT 1'')] ''sql'' = Some (JStr ''SELECT 1'' :: unit jvalue)"
    by simp
  from execute_athena_query_polling_is_bounded [OF start] running body
  show ?thesis
    by blast
qed

text \<open>
  Claim C5. When the first terminal state, at some attempt \<open>k\<close> of the 30, is
  \<open>FAILED\<close> or \<open>CANCELLED\<close> with a stated reason, the service raises the exception
  whose message ends with that reason, and the router answers 500 with the same
  message. No results are fetched: the trace holds the status calls only.
\<close>

theorem execute_athena_query_failed_or_cancelled:
  assumes "start_query_execution env sql = Inr qid"
    and "k < 30"
    and "\<forall>j<k. pending env qid j"
    and "get_query_execution env qid k = Inr st"
    and "State st = ''FAILED'' \<or> State st = ''CANCELLED''"
    and "StateChangeReason st = Some reason"
  shows "execute_athena_query env sql =
           (Inl (''Failed to execute Athena query: Query failed: '' @ reason),
            StartQueryExecution sql # waits qid k @ [GetQueryExecution qid])
       \<and> (\<forall>query_data. map_of query_data ''sql'' = Some sql \<longrightarrow>
            execute_query env query_data =
              (Err (''Failed to execute Athena query: Query failed: '' @ reason) 500,
               StartQueryExecution sql # waits qid k @
               [GetQueryExecution qid,
                LogError (''Error executing query: Failed to execute Athena query: Query failed: ''
                          @ reason)]))"
proof -
  have at_k: "poll env qid (k # [Suc k..<30]) =
      (Inl (''Query failed: '' @ reason), [GetQueryExecution qid])"
    using assms(4,5,6) by auto
  have "poll env qid [0..<30] =
      (fst (poll env qid (k # [Suc k..<30])), waits qid k @ snd (poll env qid (k # [Suc k..<30])))"
    using assms(2,3) by (intro poll_first_terminal) auto
  then have "poll env qid [0..<max_attempts] =
      (Inl (''Query failed: '' @ reason), waits qid k @ [GetQueryExecution qid])"
    by (simp only: at_k max_attempts_def fst_conv snd_conv)
  then have service: "execute_athena_query env sql =
      (Inl (''Failed to execute Athena query: Query failed: '' @ reason),
       StartQueryExecution sql # waits qid k @ [GetQueryExecution qid])"
    using assms(1) by (simp add: execute_athena_query_def)
  then show ?thesis
    by (simp add: execute_query_def)
qed

theorem execute_athena_query_failed_or_cancelled_witness:
  "execute_query
     (sample_backend\<lparr>get_query_execution :=
        (\<lambda>_ n. if n < 2 then Inr \<lparr>State = ''RUNNING'', StateChangeReason = None\<rparr>
                else Inr \<lparr>State = ''FAILED'', StateChangeReason = Some ''syntax error''\<rparr>)\<rparr>)
     [(''sql'', JStr ''SELEC 1'')] =
   (Err ''Failed to execute Athena query: Query failed: syntax error'' 500,
    [StartQueryExecution (JStr ''SELEC 1''),
     GetQueryExecution ''q-1'', Sleep 1, GetQueryExecution ''q-1'', Sleep 1,
     GetQueryExecution ''q-1'',
     LogError ''Error executing query: Failed to execute Athena query: Query failed: syntax error''])"
proof -
  let ?env = "sample_backend\<lparr>get_query_execution :=
        (\<lambda>_ n. if n < 2 then Inr \<lparr>State = ''RUNNING'', StateChangeReason = None\<rparr>
                else Inr \<lparr>State = ''FAILED'', StateChangeReason = Some ''syntax error''\<rparr>)\<rparr>"
  let ?st = "\<lparr>State = ''FAILED'', StateChangeReason = Some ''syntax error''\<rparr>"
  have start: "start_query_execution ?env (JStr ''SELEC 1'') = Inr ''q-1''"
    by (simp add: sample_backend_def)
  have k: "(2::nat) < 30" by simp
  have running: "\<forall>j<2. pending ?env ''q-1'' j"
    by (simp add: pending_def)
  have at_k: "get_query_execution ?env ''q-1'' 2 = Inr ?st"
    by simp
  have state: "State ?st = ''FAILED'' \<or> State ?st = ''CANCELLED''"
    by simp
  have reason: "StateChangeReason ?st = Some ''syntax error''"
    by simp
  have body: "map_of [(''sql'', JStr ''SELEC 1'')] ''sql'' = Some (JStr ''SELEC 1'' :: unit jvalue)"
    by simp
  have w: "waits ''q-1'' 2 =
      [GetQueryExecution ''q-1'', Sleep 1, GetQueryExecution ''q-1'', Sleep 1 :: unit effect]"
    by (simp add: waits_def numeral_2_eq_2)
  from execute_athena_query_failed_or_cancelled [OF start k running at_k state reason] body
  have "execute_query ?env [(''sql'', JStr ''SELEC 1'')] =
      (Err (''Failed to execute Athena query: Query failed: '' @ ''syntax error'') 500,
       StartQueryExecution (JStr ''SELEC 1'') # waits ''q-1'' 2 @
       [GetQueryExecution ''q-1'',
        LogError (''Error executing query: Failed to execute Athena query: Query failed: ''
                  @ ''syntax error'')])"
    by blast
  then show ?thesis
    by (simp add: w)
qed

section \<open>SQL query execution: the results\<close>

text \<open>
  The parser on a result set of the shape the SQL service returns: every header cell
  carries a column name, and no data row has more cells than the header. Then every data
  row becomes one mapping, which sends the header names to the row's values, cell by
  cell (a later column of the same name overrides an earlier one, as assignment to a
  dictionary does), with the empty string for a cell without a value.
\<close>

lemma columns_of_named:
  "list_all (\<lambda>c. c \<noteq> None) header \<Longrightarrow> columns_of header = Inr (map cell_value header)"
  by (induction header rule: columns_of.induct) (simp_all add: cell_value_def)

lemma parse_row_fits:
  "length cells \<le> length columns \<Longrightarrow>
   \<exists>row_data. parse_row columns cells acc = Inr row_data
     \<and> map_of row_data = (map_of acc)(columns [\<mapsto>] map cell_value cells)"
proof (induction columns cells acc rule: parse_row.induct)
  case (1 columns row_data)
  show ?case by simp
next
  case (2 c cs row_data)
  then show ?case by simp
next
  case (3 k ks c cs row_data)
  from "3.prems" have "length cs \<le> length ks" by simp
  from "3.IH" [OF this]
  obtain d where d: "parse_row ks cs (AList.update k (cell_value c) row_data) = Inr d"
    and m: "map_of d =
      (map_of (AList.update k (cell_value c) row_data))(ks [\<mapsto>] map cell_value cs)"
    by blast
  have "map_of d = (map_of row_data)(k # ks [\<mapsto>] map cell_value (c # cs))"
    by (simp only: m update_conv' map_upds_Cons list.map)
  with d show ?case
    by simp
qed

lemma parse_rows_fit:
  "list_all (\<lambda>r. length r \<le> length columns) data \<Longrightarrow>
   \<exists>parsed. parse_rows columns data = Inr parsed
     \<and> length parsed = length data
     \<and> (\<forall>i<length data.
           map_of (parsed ! i) = Map.empty(columns [\<mapsto>] map cell_value (data ! i)))"
proof (induction data)
  case Nil
  show ?case by simp
next
  case (Cons r data)
  from Cons.prems have "length r \<le> length columns" by simp
  from parse_row_fits [OF this, of "[]"]
  obtain row_data where r: "parse_row columns r [] = Inr row_data"
    and m: "map_of row_data = Map.empty(columns [\<mapsto>] map cell_value r)"
    by auto
  from Cons obtain parsed where p: "parse_rows columns data = Inr parsed"
    and l: "length parsed = length data"
    and ms: "\<forall>i<length data.
           map_of (parsed ! i) = Map.empty(columns [\<mapsto>] map cell_value (data ! i))"
    by auto
  have "\<forall>i<length (r # data).
      map_of ((row_data # parsed) ! i) = Map.empty(columns [\<mapsto>] map cell_value ((r # data) ! i))"
    using m ms by (simp add: nth_Cons split: nat.splits)
  then show ?case
    using r p l by simp
qed


lemma parse_rows_length:
  "parse_rows columns data = Inr parsed \<Longrightarrow> length parsed = length data"
  by (induction data arbitrary: parsed) (auto split: sum.splits)

lemma parse_athena_results_length:
  "parse_athena_results rows = Inr parsed \<Longrightarrow> length parsed = length rows - 1"
  by (auto simp add: parse_athena_results_def parse_rows_length split: list.splits sum.splits)

lemma execute_athena_query_at_succeeded:
  assumes "start_query_execution env sql = Inr qid"
    and "k < 30"
    and "\<forall>j<k. pending env qid j"
    and "get_query_execution env qid k = Inr st"
    and "State st = ''SUCCEEDED''"
    and "get_query_results env qid 1000 = Inr rows"
  shows "execute_athena_query env sql =
     (case parse_athena_results rows of
        Inl e \<Rightarrow> Inl (''Failed to execute Athena query: '' @ e)
      | Inr parsed \<Rightarrow>
          Inr \<lparr>query_execution_id = qid, status = ''success'', results = parsed\<rparr>,
      StartQueryExecution sql # waits qid k @ [GetQueryExecution qid, GetQueryResults qid 1000])"
proof -
  have at_k: "poll env qid (k # [Suc k..<30]) =
     (case parse_athena_results rows of
        Inl e \<Rightarrow> Inl e
      | Inr parsed \<Rightarrow>
          Inr \<lparr>query_execution_id = qid, status = ''success'', results = parsed\<rparr>,
      [GetQueryExecution qid, GetQueryResults qid 1000])"
    using assms(4,5,6) by (simp split: sum.splits)
  have "poll env qid [0..<30] =
      (fst (poll env qid (k # [Suc k..<30])), waits qid k @ snd (poll env qid (k # [Suc k..<30])))"
    using assms(2,3) by (intro poll_first_terminal) auto
  then have "poll env qid [0..<max_attempts] =
     (case parse_athena_results rows of
        Inl e \<Rightarrow> Inl e
      | Inr parsed \<Rightarrow>
          Inr \<lparr>query_execution_id = qid, status = ''success'', results = parsed\<rparr>,
      waits qid k @ [GetQueryExecution qid, GetQueryResults qid 1000])"
    by (simp only: at_k max_attempts_def fst_conv snd_conv)
  then show ?thesis
    using assms(1) by (simp add: execute_athena_query_def split: sum.splits)
qed

text \<open>
  Claim C4. Let the first terminal state of a submitted query be \<open>SUCCEEDED\<close>. Then
  the results are fetched once, with the row limit 1000, and whatever is returned holds
  one mapping per fetched row after the first. A result set with no row at all gives the
  empty result list, not an error; so does a result set of the header row alone. In
  general the first row is the header and each later row \<open>i\<close> is returned as the
  mapping from the header names to the values of row \<open>i\<close>, in the order of the rows.
\<close>

theorem execute_athena_query_succeeded:
  assumes "start_query_execution env sql = Inr qid"
    and "k < 30"
    and "\<forall>j<k. pending env qid j"
    and "get_query_execution env qid k = Inr st"
    and "State st = ''SUCCEEDED''"
    and "get_query_results env qid 1000 = Inr rows"
  shows "snd (execute_athena_query env sql) =
           StartQueryExecution sql # waits qid k @
           [GetQueryExecution qid, GetQueryResults qid 1000]
       \<and> (\<forall>r. fst (execute_athena_query env sql) = Inr r \<longrightarrow>
              length (results r) = length rows - 1)
       \<and> (rows = [] \<longrightarrow>
              fst (execute_athena_query env sql) =
                Inr \<lparr>query_execution_id = qid, status = ''success'', results = []\<rparr>)
       \<and> (\<forall>header. rows = [header] \<and> list_all (\<lambda>c. c \<noteq> None) header \<longrightarrow>
              fst (execute_athena_query env sql) =
                Inr \<lparr>query_execution_id = qid, status = ''success'', results = []\<rparr>)
       \<and> (\<forall>header data.
              rows = header # data \<and> list_all (\<lambda>c. c \<noteq> None) header
              \<and> list_all (\<lambda>r. length r \<le> length header) data \<longrightarrow>
              (\<exists>parsed.
                 fst (execute_athena_query env sql) =
                   Inr \<lparr>query_execution_id = qid, status = ''success'', results = parsed\<rparr>
                 \<and> length parsed = length data
                 \<and> (\<forall>i<length data.
                       map_of (parsed ! i) =
                         Map.empty(map cell_value header [\<mapsto>] map cell_value (data ! i)))))"
proof -
  note run = execute_athena_query_at_succeeded [OF assms]
  have trace: "snd (execute_athena_query env sql) =
      StartQueryExecution sql # waits qid k @ [GetQueryExecution qid, GetQueryResults qid 1000]"
    by (simp add: run)
  have count: "\<forall>r. fst (execute_athena_query env sql) = Inr r \<longrightarrow>
      length (results r) = length rows - 1"
    by (auto simp add: run dest: parse_athena_results_length split: sum.splits)
  have none: "rows = [] \<longrightarrow>
      fst (execute_athena_query env sql) =
        Inr \<lparr>query_execution_id = qid, status = ''success'', results = []\<rparr>"
    by (simp add: run parse_athena_results_def)
  have rect: "\<exists>parsed.
         fst (execute_athena_query env sql) =
           Inr \<lparr>query_execution_id = qid, status = ''success'', results = parsed\<rparr>
         \<and> length parsed = length data
         \<and> (\<forall>i<length data.
               map_of (parsed ! i) =
                 Map.empty(map cell_value header [\<mapsto>] map cell_value (data ! i)))"
    if "rows = header # data" and "list_all (\<lambda>c. c \<noteq> None) header"
      and "list_all (\<lambda>r. length r \<le> length header) data" for header data
  proof -
    have "list_all (\<lambda>r. length r \<le> length (map cell_value header)) data"
      using that(3) by simp
    from parse_rows_fit [OF this]
    obtain parsed where "parse_rows (map cell_value header) data = Inr parsed"
      and "length parsed = length data"
      and "\<forall>i<length data.
           map_of (parsed ! i) = Map.empty(map cell_value header [\<mapsto>] map cell_value (data ! i))"
      by blast
    moreover have "parse_athena_results rows = parse_rows (map cell_value header) data"
      using that(1,2) by (simp add: parse_athena_results_def columns_of_named)
    ultimately show ?thesis
      by (simp add: run)
  qed
  have only_header: "\<forall>header. rows = [header] \<and> list_all (\<lambda>c. c \<noteq> None) header \<longrightarrow>
      fst (execute_athena_query env sql) =
        Inr \<lparr>query_execution_id = qid, status = ''success'', results = []\<rparr>"
    by (simp add: run parse_athena_results_def columns_of_named)
  from trace count none only_header rect show ?thesis
    by blast
qed

theorem execute_athena_query_succeeded_witness:
  "execute_athena_query
     (sample_backend\<lparr>get_query_execution :=
        (\<lambda>_ n. if n < 1 then Inr \<lparr>State = ''RUNNING'', StateChangeReason = None\<rparr>
                else Inr \<lparr>State = ''SUCCEEDED'', StateChangeReason = None\<rparr>),
        get_query_results := (\<lambda>_ _. Inr sample_rows)\<rparr>)
     (JStr ''SELECT id, name FROM t'') =
   (Inr \<lparr>query_execution_id = ''q-1'', status = ''success'',
         results = [[(''id'', ''1''), (''name'', ''ann'')], [(''id'', ''2''), (''name'', [])]]\<rparr>,
    [StartQueryExecution (JStr ''SELECT id, name FROM t''),
     GetQueryExecution ''q-1'', Sleep 1,
     GetQueryExecution ''q-1'', GetQueryResults ''q-1'' 1000])"
proof -
  let ?env = "sample_backend\<lparr>get_query_execution :=
        (\<lambda>_ n. if n < 1 then Inr \<lparr>State = ''RUNNING'', StateChangeReason = None\<rparr>
                else Inr \<lparr>State = ''SUCCEEDED'', StateChangeReason = None\<rparr>),
        get_query_results := (\<lambda>_ _. Inr sample_rows)\<rparr>"
  let ?sql = "JStr ''SELECT id, name FROM t'' :: unit jvalue"
  let ?st = "\<lparr>State = ''SUCCEEDED'', StateChangeReason = None\<rparr>"
  let ?parsed = "[[(''id'', ''1''), (''name'', ''ann'')], [(''id'', ''2''), (''name'', [])]]"
  have start: "start_query_execution ?env ?sql = Inr ''q-1''"
    by (simp add: sample_backend_def)
  have k: "(1::nat) < 30" by simp
  have running: "\<forall>j<1. pending ?env ''q-1'' j"
    by (simp add: pending_def)
  have at_k: "get_query_execution ?env ''q-1'' 1 = Inr ?st"
    by simp
  have state: "State ?st = ''SUCCEEDED''"
    by simp
  have fetch: "get_query_results ?env ''q-1'' 1000 = Inr sample_rows"
    by simp
  note main = execute_athena_query_succeeded [OF start k running at_k state fetch]
  have w: "waits ''q-1'' 1 = [GetQueryExecution ''q-1'', Sleep 1 :: unit effect]"
    by (simp add: waits_def)
  from main have "snd (execute_athena_query ?env ?sql) =
      StartQueryExecution ?sql # waits ''q-1'' 1 @
      [GetQueryExecution ''q-1'', GetQueryResults ''q-1'' 1000]"
    by (rule conjunct1)
  then have trace: "snd (execute_athena_query ?env ?sql) =
      [StartQueryExecution ?sql, GetQueryExecution ''q-1'', Sleep 1,
       GetQueryExecution ''q-1'', GetQueryResults ''q-1'' 1000]"
    unfolding w by simp
  have "parse_athena_results sample_rows = Inr ?parsed"
    by (simp add: parse_athena_results_def sample_rows_def cell_value_def)
  with execute_athena_query_at_succeeded [OF start k running at_k state fetch]
  have "fst (execute_athena_query ?env ?sql) =
      Inr \<lparr>query_execution_id = ''q-1'', status = ''success'', results = ?parsed\<rparr>"
    by simp
  with trace show ?thesis
    by (simp add: prod_eq_iff)
qed

section \<open>Batch storage\<close>

text \<open>
  The slices the outer loop takes: \<open>range(0, n, 25)\<close> has one start for every 25
  events begun, the slices taken at these starts are the input cut into consecutive
  pieces, and no slice holds more than 25 events.
\<close>

lemma ceil_step: "i < n \<Longrightarrow> Suc ((n - (i + 25) + 24) div 25) = (n - i + 24) div (25::nat)"
proof (cases "i + 25 \<le> n")
  case True
  then have "n - i + 24 = (n - (i + 25) + 24) + 25" by simp
  then show ?thesis by (simp only: div_add_self2)
next
  case False
  assume "i < n"
  with False have "n - (i + 25) = 0" and "25 \<le> n - i + 24" and "n - i + 24 < 50"
    by simp_all
  then show ?thesis by simp
qed

lemma length_range_step_25:
  "length (range_step i n 25) = (n - i + 24) div 25"
proof (induction "n - i" arbitrary: i rule: less_induct)
  case less
  show ?case
  proof (cases "i < n")
    case True
    have "n - (i + 25) < n - i" using True by simp
    then have "length (range_step (i + 25) n 25) = (n - (i + 25) + 24) div 25"
      by (rule less)
    moreover have "range_step i n 25 = i # range_step (i + 25) n 25"
      using True by (subst range_step.simps) simp
    ultimately show ?thesis
      using ceil_step [OF True] by simp
  next
    case False
    then have "range_step i n 25 = []"
      by (subst range_step.simps) simp
    with False show ?thesis by simp
  qed
qed


lemma concat_slices:
  "concat (map (\<lambda>j. take 25 (drop j xs)) (range_step i (length xs) 25)) = drop i xs"
proof (induction "length xs - i" arbitrary: i rule: less_induct)
  case less
  show ?case
  proof (cases "i < length xs")
    case True
    have "length xs - (i + 25) < length xs - i" using True by simp
    then have "concat (map (\<lambda>j. take 25 (drop j xs)) (range_step (i + 25) (length xs) 25)) =
        drop (i + 25) xs"
      by (rule less)
    moreover have "range_step i (length xs) 25 = i # range_step (i + 25) (length xs) 25"
      using True by (subst range_step.simps) simp
    moreover have "take 25 (drop i xs) @ drop (i + 25) xs = drop i xs"
      by (metis add.commute append_take_drop_id drop_drop)
    ultimately show ?thesis
      by simp
  next
    case False
    then have "range_step i (length xs) 25 = []"
      by (subst range_step.simps) simp
    with False show ?thesis by simp
  qed
qed

lemma length_batches: "length (batches events) = (length events + 24) div 25"
  by (simp add: batches_def batch_size_def length_range_step_25)

lemma concat_batches: "concat (batches events) = events"
  using concat_slices [of events 0] by (simp add: batches_def batch_size_def)

lemma size_batches: "b \<in> set (batches events) \<Longrightarrow> length b \<le> 25"
  by (auto simp add: batches_def batch_size_def)

text \<open>
  One turn of the inner loop and the loops around it. An event keeps all its entries;
  the id appended to \<open>successful\<close> is the one stored in the event; the writer is entered
  once per slice; and the outer loop only ever appends to its two lists, so what a
  slice has added stays where it is.
\<close>


lemma update_default_keeps:
  "map_of d \<subseteq>\<^sub>m map_of (AList.update k (case map_of d k of Some v \<Rightarrow> v | None \<Rightarrow> w) d)"
  by (auto simp add: update_conv' map_le_def split: option.splits)

lemma write_event_unfold:
  "write_event env t ev =
     (case map_of (stamped env t ev) ''user_id'' of
        None \<Rightarrow> (Some (key_error ''user_id''), stamped env t ev, [], Suc t, [])
      | Some u \<Rightarrow>
          (case writer_put_item env
                  (AList.update ''event_id'' (id_for env t (stamped env t ev) u) (stamped env t ev)) of
             Some e \<Rightarrow>
               (Some e,
                AList.update ''event_id'' (id_for env t (stamped env t ev) u) (stamped env t ev),
                [], Suc (Suc t),
                [WriterPutItem
                   (AList.update ''event_id'' (id_for env t (stamped env t ev) u)
                      (stamped env t ev))])
           | None \<Rightarrow>
               (None,
                AList.update ''event_id'' (id_for env t (stamped env t ev) u) (stamped env t ev),
                [id_for env t (stamped env t ev) u], Suc (Suc t),
                WriterPutItem
                  (AList.update ''event_id'' (id_for env t (stamped env t ev) u)
                     (stamped env t ev)) #
                store_event_to_s3 env
                  (AList.update ''event_id'' (id_for env t (stamped env t ev) u)
                     (stamped env t ev)))))"
  unfolding write_event_def stamped_def id_for_def Let_def ..


lemma stamped_keeps: "map_of ev \<subseteq>\<^sub>m map_of (stamped env t ev)"
  unfolding stamped_def by (rule update_default_keeps)

lemma id_for_keeps:
  "map_of ev \<subseteq>\<^sub>m map_of (AList.update ''event_id'' (id_for env t ev u) ev)"
  unfolding id_for_def by (rule update_default_keeps)

lemma id_for_stored:
  "map_of (AList.update ''event_id'' (id_for env t ev u) ev) ''event_id'' = Some (id_for env t ev u)"
  by (simp add: update_conv')

lemma write_event_keeps:
  assumes "write_event env t ev = (r, ev', ids, t', tr)"
  shows "map_of ev \<subseteq>\<^sub>m map_of ev'"
proof -
  have "ev' = stamped env t ev
      \<or> (\<exists>u. ev' = AList.update ''event_id'' (id_for env t (stamped env t ev) u) (stamped env t ev))"
    using assms unfolding write_event_unfold by (auto split: option.splits)
  then show ?thesis
  proof
    assume "ev' = stamped env t ev"
    then show ?thesis by (simp add: stamped_keeps)
  next
    assume "\<exists>u. ev' = AList.update ''event_id'' (id_for env t (stamped env t ev) u) (stamped env t ev)"
    then obtain u where "ev' = AList.update ''event_id'' (id_for env t (stamped env t ev) u) (stamped env t ev)"
      by blast
    then have "map_of (stamped env t ev) \<subseteq>\<^sub>m map_of ev'"
      by (simp add: id_for_keeps)
    with stamped_keeps [of ev env t] show ?thesis
      by (rule map_le_trans)
  qed
qed

lemma write_event_ids:
  assumes "write_event env t ev = (r, ev', ids, t', tr)"
  shows "(r = None \<and> (\<exists>eid. ids = [eid] \<and> map_of ev' ''event_id'' = Some eid))
       \<or> (r \<noteq> None \<and> ids = [])"
proof (cases "map_of (stamped env t ev) ''user_id''")
  case None
  then show ?thesis
    using assms unfolding write_event_unfold by auto
next
  case (Some u)
  let ?ev2 = "AList.update ''event_id'' (id_for env t (stamped env t ev) u) (stamped env t ev)"
  show ?thesis
  proof (cases "writer_put_item env ?ev2")
    case None
    then have "r = None" and "ids = [id_for env t (stamped env t ev) u]" and "ev' = ?ev2"
      using assms Some unfolding write_event_unfold by auto
    then show ?thesis
      by (simp add: id_for_stored)
  next
    case (Some e)
    then have "r = Some e" and "ids = []"
      using assms \<open>map_of (stamped env t ev) ''user_id'' = Some u\<close>
      unfolding write_event_unfold by auto
    then show ?thesis by simp
  qed
qed

lemma write_events_shape:
  "write_events env t batch = (r, batch', ids, t', tr) \<Longrightarrow> chunk_shape batch r batch' ids"
proof (induction batch arbitrary: t r batch' ids t' tr)
  case Nil
  then show ?case by (auto simp add: chunk_shape_def)
next
  case (Cons ev rest)
  obtain r0 ev' ids0 t0 tr0 where first: "write_event env t ev = (r0, ev', ids0, t0, tr0)"
    by (metis prod_cases5)
  note keeps = write_event_keeps [OF first]
  show ?case
  proof (cases r0)
    case (Some e)
    with write_event_ids [OF first] have "ids0 = []" by simp
    with Cons.prems first Some have "r = Some e" "batch' = ev' # rest" "ids = []"
      by simp_all
    then show ?thesis
      using keeps by (auto simp add: chunk_shape_def nth_Cons split: nat.splits)
  next
    case None
    with write_event_ids [OF first] obtain eid where
      eid: "ids0 = [eid]" "map_of ev' ''event_id'' = Some eid"
      by auto
    obtain r1 rest' ids1 t1 tr1 where
      later: "write_events env t0 rest = (r1, rest', ids1, t1, tr1)"
      by (metis prod_cases5)
    from Cons.IH [OF later] have IH: "chunk_shape rest r1 rest' ids1" .
    from Cons.prems first None later eid
    have res: "r = r1" "batch' = ev' # rest'" "ids = eid # ids1"
      by simp_all
    show ?thesis
      unfolding chunk_shape_def res
      using IH keeps eid(2)
      by (auto simp add: chunk_shape_def nth_Cons split: nat.splits)
  qed
qed


lemma writer_items_append: "writer_items (xs @ ys) = writer_items xs @ writer_items ys"
  by (simp add: writer_items_def List.map_filter_def)

lemma store_event_to_s3_trace:
  "writer_items (store_event_to_s3 env ev) = []
   \<and> count_list (store_event_to_s3 env ev) BatchWriter = 0"
  by (auto simp add: store_event_to_s3_def try_store_event_to_s3_def writer_items_def Let_def
      split: option.splits jvalue.splits sum.splits)

lemma write_event_trace:
  assumes "write_event env t ev = (r, ev', ids, t', tr)"
  shows "count_list tr BatchWriter = 0"
    and "length (writer_items tr) \<le> 1"
    and "r = None \<Longrightarrow> writer_items tr = [ev']"
  using assms store_event_to_s3_trace [of env]
  unfolding write_event_unfold
  by (auto simp add: writer_items_def split: option.splits)


lemma write_events_trace:
  "write_events env t batch = (r, batch', ids, t', tr) \<Longrightarrow>
   count_list tr BatchWriter = 0
   \<and> length (writer_items tr) \<le> length batch
   \<and> (r = None \<longrightarrow> writer_items tr = batch')"
proof (induction batch arbitrary: t r batch' ids t' tr)
  case Nil
  then show ?case by (auto simp add: writer_items_def)
next
  case (Cons ev rest)
  obtain r0 ev' ids0 t0 tr0 where first: "write_event env t ev = (r0, ev', ids0, t0, tr0)"
    by (metis prod_cases5)
  note tr0 = write_event_trace [OF first]
  show ?case
  proof (cases r0)
    case (Some e)
    with Cons.prems first have "r = Some e" "tr = tr0"
      by simp_all
    then show ?thesis
      using tr0(1,2) by simp
  next
    case None
    obtain r1 rest' ids1 t1 tr1 where
      later: "write_events env t0 rest = (r1, rest', ids1, t1, tr1)"
      by (metis prod_cases5)
    note IH = Cons.IH [OF later]
    from Cons.prems first None later
    have res: "r = r1" "batch' = ev' # rest'" "tr = tr0 @ tr1"
      by simp_all
    show ?thesis
      unfolding res using IH tr0(1) tr0(3) [OF None]
      by (simp add: writer_items_append)
  qed
qed

lemma write_batch_unfold:
  "write_events env t batch = (r, batch', ids, t', tr) \<Longrightarrow>
   write_batch env t batch =
     (case writer_exit env (writer_items tr) of Some e \<Rightarrow> Some e | None \<Rightarrow> r,
      batch', ids, t', BatchWriter # tr @ [WriterExit (writer_items tr)])"
  by (simp add: write_batch_def Let_def)

lemma write_batch_shape:
  assumes "write_batch env t batch = (exc, batch', ids, t', tr)"
  shows "chunk_shape batch exc batch' ids" and "count_list tr BatchWriter = 1"
proof -
  obtain r b i t1 tr1 where inner: "write_events env t batch = (r, b, i, t1, tr1)"
    by (metis prod_cases5)
  from write_batch_unfold [OF inner] assms
  have res: "exc = (case writer_exit env (writer_items tr1) of Some e \<Rightarrow> Some e | None \<Rightarrow> r)"
    "batch' = b" "ids = i" "tr = BatchWriter # tr1 @ [WriterExit (writer_items tr1)]"
    by simp_all
  have "exc = None \<longrightarrow> r = None"
    unfolding res by (simp split: option.splits)
  with write_events_shape [OF inner] show "chunk_shape batch exc batch' ids"
    unfolding res(2,3) chunk_shape_def by blast
  from write_events_trace [OF inner] show "count_list tr BatchWriter = 1"
    unfolding res(4) by simp
qed

lemma batch_loop_append:
  "batch_loop env (xs @ ys) st = batch_loop env ys (batch_loop env xs st)"
proof (induction xs arbitrary: st)
  case Nil
  show ?case by simp
next
  case (Cons b xs)
  obtain t succ fl tr where st: "st = (t, succ, fl, tr)"
    by (metis prod_cases4)
  obtain exc b' ids t' tr' where w: "write_batch env t b = (exc, b', ids, t', tr')"
    by (metis prod_cases5)
  show ?case
    unfolding st by (simp add: w Cons.IH)
qed

lemma batch_loop_grows:
  "batch_loop env bs (t, succ, fl, tr) = (t', succ', fl', tr') \<Longrightarrow>
   (\<exists>S. succ' = succ @ S) \<and> (\<exists>F. fl' = fl @ F)
   \<and> count_list tr' BatchWriter = count_list tr BatchWriter + length bs"
proof (induction bs arbitrary: t succ fl tr)
  case Nil
  then show ?case by simp
next
  case (Cons b bs)
  obtain exc b' ids t1 tr1 where w: "write_batch env t b = (exc, b', ids, t1, tr1)"
    by (metis prod_cases5)
  let ?fl = "case exc of None \<Rightarrow> fl
     | Some e \<Rightarrow> fl @ map (\<lambda>ev. \<lparr>event = ev, error = e\<rparr>) b'"
  from Cons.prems w
  have "batch_loop env bs (t1, succ @ ids, ?fl, tr @ tr1) = (t', succ', fl', tr')"
    by simp
  from Cons.IH [OF this] obtain S F where
    "succ' = (succ @ ids) @ S" "fl' = ?fl @ F"
    "count_list tr' BatchWriter = count_list (tr @ tr1) BatchWriter + length bs"
    by blast
  moreover have "\<exists>F0. ?fl = fl @ F0"
    by (cases exc) simp_all
  ultimately show ?case
    using write_batch_shape(2) [OF w] by auto
qed

lemma store_events_batch_at_chunk:
  assumes "k < length (batches events)"
  shows "\<exists>S0 S1 F0 F1.
     successful (fst (store_events_batch env events)) = S0 @ chunk_ids env events k @ S1
     \<and> failed (fst (store_events_batch env events)) = F0 @ chunk_failures env events k @ F1"
proof -
  let ?bs = "batches events"
  obtain t succ fl tr where before: "state_before env events k = (t, succ, fl, tr)"
    by (metis prod_cases4)
  obtain exc b' ids t1 tr1 where run: "write_batch env t (?bs ! k) = (exc, b', ids, t1, tr1)"
    by (metis prod_cases5)
  have proj: "chunk_ids env events k = ids" "chunk_error env events k = exc"
    "chunk_events env events k = b'"
    by (simp_all add: chunk_ids_def chunk_error_def chunk_events_def chunk_run_def before run)
  have parts: "chunk_ids env events k = ids"
    "chunk_failures env events k =
       (case exc of None \<Rightarrow> [] | Some e \<Rightarrow> map (\<lambda>ev. \<lparr>event = ev, error = e\<rparr>) b')"
    unfolding chunk_failures_def proj by simp_all
  let ?fl = "case exc of None \<Rightarrow> fl
     | Some e \<Rightarrow> fl @ map (\<lambda>ev. \<lparr>event = ev, error = e\<rparr>) b'"
  have fl: "?fl = fl @ chunk_failures env events k"
    unfolding parts by (cases exc) simp_all
  have "?bs = take k ?bs @ [?bs ! k] @ drop (Suc k) ?bs"
    using assms id_take_nth_drop by fastforce
  then have "batch_loop env ?bs (0, [], [], []) =
      batch_loop env (drop (Suc k) ?bs)
        (batch_loop env [?bs ! k] (state_before env events k))"
    unfolding state_before_def by (metis batch_loop_append)
  also have "batch_loop env [?bs ! k] (state_before env events k) =
      (t1, succ @ ids, ?fl, tr @ tr1)"
    by (simp add: before run)
  finally have whole: "batch_loop env ?bs (0, [], [], []) =
      batch_loop env (drop (Suc k) ?bs) (t1, succ @ ids, ?fl, tr @ tr1)" .
  obtain t' succ' fl' tr' where final:
    "batch_loop env (drop (Suc k) ?bs) (t1, succ @ ids, ?fl, tr @ tr1) = (t', succ', fl', tr')"
    by (metis prod_cases4)
  from batch_loop_grows [OF final] obtain S F where
    "succ' = (succ @ ids) @ S" "fl' = ?fl @ F"
    by blast
  then have "succ' = succ @ chunk_ids env events k @ S"
    "fl' = fl @ chunk_failures env events k @ F"
    by (simp_all add: parts(1) fl)
  moreover have "fst (store_events_batch env events) = \<lparr>successful = succ', failed = fl'\<rparr>"
    by (simp add: store_events_batch_def whole final)
  ultimately show ?thesis
    by (metis batch_result.select_convs(1) batch_result.select_convs(2))
qed

lemma chunk_run_shape:
  "chunk_shape (batches events ! k) (chunk_error env events k) (chunk_events env events k)
     (chunk_ids env events k)"
proof -
  obtain exc b' ids t1 tr1 where
    run: "chunk_run env events k = (exc, b', ids, t1, tr1)"
    by (metis prod_cases5)
  then have "write_batch env (fst (state_before env events k)) (batches events ! k) =
      (exc, b', ids, t1, tr1)"
    by (simp add: chunk_run_def)
  from write_batch_shape(1) [OF this] show ?thesis
    by (simp add: chunk_error_def chunk_events_def chunk_ids_def run)
qed

lemma store_events_batch_writes:
  "count_list (snd (store_events_batch env events)) BatchWriter = length (batches events)"
proof -
  obtain t' succ' fl' tr' where final:
    "batch_loop env (batches events) (0, [], [], []) = (t', succ', fl', tr')"
    by (metis prod_cases4)
  from batch_loop_grows [OF final]
  have "count_list tr' BatchWriter = length (batches events)"
    by simp
  then show ?thesis
    by (simp add: store_events_batch_def final)
qed

lemma state_before_Suc:
  assumes "k < length (batches events)"
  shows "fst (snd (state_before env events (Suc k))) =
           fst (snd (state_before env events k)) @ chunk_ids env events k"
    and "fst (snd (snd (state_before env events (Suc k)))) =
           fst (snd (snd (state_before env events k))) @ chunk_failures env events k"
proof -
  let ?bs = "batches events"
  obtain t succ fl tr where before: "state_before env events k = (t, succ, fl, tr)"
    by (metis prod_cases4)
  obtain exc b' ids t1 tr1 where run: "write_batch env t (?bs ! k) = (exc, b', ids, t1, tr1)"
    by (metis prod_cases5)
  have proj: "chunk_ids env events k = ids" "chunk_error env events k = exc"
    "chunk_events env events k = b'"
    by (simp_all add: chunk_ids_def chunk_error_def chunk_events_def chunk_run_def before run)
  have "take (Suc k) ?bs = take k ?bs @ [?bs ! k]"
    using assms by (rule take_Suc_conv_app_nth)
  then have "state_before env events (Suc k) = batch_loop env [?bs ! k] (state_before env events k)"
    by (simp add: state_before_def batch_loop_append)
  then have step: "state_before env events (Suc k) =
      (t1, succ @ ids,
       (case exc of None \<Rightarrow> fl | Some e \<Rightarrow> fl @ map (\<lambda>ev. \<lparr>event = ev, error = e\<rparr>) b'),
       tr @ tr1)"
    by (simp add: before run)
  show "fst (snd (state_before env events (Suc k))) =
      fst (snd (state_before env events k)) @ chunk_ids env events k"
    by (simp add: step before proj)
  show "fst (snd (snd (state_before env events (Suc k)))) =
      fst (snd (snd (state_before env events k))) @ chunk_failures env events k"
    unfolding chunk_failures_def proj by (cases exc) (simp_all add: step before)
qed

lemma state_before_lists:
  "k \<le> length (batches events) \<Longrightarrow>
   fst (snd (state_before env events k)) = concat (map (chunk_ids env events) [0..<k])
   \<and> fst (snd (snd (state_before env events k))) =
       concat (map (chunk_failures env events) [0..<k])"
proof (induction k)
  case 0
  show ?case by (simp add: state_before_def)
next
  case (Suc k)
  then have "k < length (batches events)" by simp
  from state_before_Suc [OF this, of env] Suc show ?case
    by simp
qed

lemma store_events_batch_lists:
  "successful (fst (store_events_batch env events)) =
     concat (map (chunk_ids env events) [0..<length (batches events)])"
  "failed (fst (store_events_batch env events)) =
     concat (map (chunk_failures env events) [0..<length (batches events)])"
proof -
  obtain t succ fl tr where final:
    "batch_loop env (batches events) (0, [], [], []) = (t, succ, fl, tr)"
    by (metis prod_cases4)
  then have "state_before env events (length (batches events)) = (t, succ, fl, tr)"
    by (simp add: state_before_def)
  with state_before_lists [of "length (batches events)" events env]
  have "succ = concat (map (chunk_ids env events) [0..<length (batches events)])"
    "fl = concat (map (chunk_failures env events) [0..<length (batches events)])"
    by simp_all
  then show "successful (fst (store_events_batch env events)) =
      concat (map (chunk_ids env events) [0..<length (batches events)])"
    and "failed (fst (store_events_batch env events)) =
      concat (map (chunk_failures env events) [0..<length (batches events)])"
    by (simp_all add: store_events_batch_def final)
qed


lemma write_event_ok:
  assumes "map_of ev ''user_id'' \<noteq> None" and "\<forall>item. writer_put_item env item = None"
    and "write_event env t ev = (r, ev', ids, t', tr)"
  shows "r = None"
proof -
  from assms(1) obtain u where "map_of ev ''user_id'' = Some u" by auto
  with stamped_keeps [of ev env t] have "map_of (stamped env t ev) ''user_id'' = Some u"
    by (auto simp add: map_le_def dom_def)
  with assms(2,3) show ?thesis
    unfolding write_event_unfold by auto
qed

lemma write_events_ok:
  "\<forall>ev\<in>set batch. map_of ev ''user_id'' \<noteq> None \<Longrightarrow>
   \<forall>item. writer_put_item env item = None \<Longrightarrow>
   write_events env t batch = (r, batch', ids, t', tr) \<Longrightarrow> r = None"
proof (induction batch arbitrary: t r batch' ids t' tr)
  case Nil
  then show ?case by simp
next
  case (Cons ev rest)
  obtain r0 ev' ids0 t0 tr0 where first: "write_event env t ev = (r0, ev', ids0, t0, tr0)"
    by (metis prod_cases5)
  have r0: "r0 = None"
    using Cons.prems(1,2) first by (intro write_event_ok [of ev env t r0 ev' ids0 t0 tr0]) simp_all
  obtain r1 rest' ids1 t1 tr1 where
    later: "write_events env t0 rest = (r1, rest', ids1, t1, tr1)"
    by (metis prod_cases5)
  have "r1 = None"
    using Cons.prems(1,2) later by (intro Cons.IH [of t0 r1 rest' ids1 t1 tr1]) simp_all
  moreover have "r = r1"
    using Cons.prems(3) first r0 later by simp
  ultimately show ?case by simp
qed

lemma chunk_all_put:
  assumes "\<forall>ev\<in>set (batches events ! k). map_of ev ''user_id'' \<noteq> None"
    and "\<forall>item. writer_put_item env item = None"
  shows "chunk_error env events k = writer_exit env (chunk_events env events k)"
    and "length (chunk_ids env events k) = length (batches events ! k)"
proof -
  let ?t = "fst (state_before env events k)"
  obtain r b i t1 tr1 where inner: "write_events env ?t (batches events ! k) = (r, b, i, t1, tr1)"
    by (metis prod_cases5)
  have r: "r = None"
    using assms inner by (rule write_events_ok)
  with write_events_trace [OF inner] have items: "writer_items tr1 = b"
    by simp
  from write_events_shape [OF inner] r have len: "length i = length (batches events ! k)"
    by (simp add: chunk_shape_def)
  from inner r have inner': "write_events env ?t (batches events ! k) = (None, b, i, t1, tr1)"
    by simp
  have "(case writer_exit env b of Some e \<Rightarrow> Some e | None \<Rightarrow> None) = writer_exit env b"
    by (simp split: option.splits)
  then have run: "chunk_run env events k =
      (writer_exit env b, b, i, t1, BatchWriter # tr1 @ [WriterExit b])"
    unfolding chunk_run_def using write_batch_unfold [OF inner'] by (simp add: items)
  show "chunk_error env events k = writer_exit env (chunk_events env events k)"
    by (simp add: chunk_error_def chunk_events_def run)
  show "length (chunk_ids env events k) = length (batches events ! k)"
    by (simp add: chunk_ids_def run len)
qed

text \<open>
  Claim C2. The input is cut into consecutive slices of at most 25 events, one for
  every 25 events begun, and the batch writer is entered exactly once per slice: twice
  for 30 events. The failure policy is by slice. The \<open>failed\<close> list is, slice after
  slice in order, nothing for a slice whose write raised no exception and, for a slice
  whose write raised \<open>e\<close>, one entry for every event of the slice, all with the message
  \<open>e\<close>; an entry holds the event as the loop left it, that is the submitted event with
  at most the metadata keys added. The \<open>successful\<close> list is built from the slices in
  the same way, and a slice without exception contributes the ids of all its events.
  Every slice is run whatever happened to the ones before it, and the function is total:
  it returns the two lists and never raises.
\<close>

theorem store_events_batch_chunk_granular:
  "length (batches events) = (length events + 24) div 25
   \<and> concat (batches events) = events
   \<and> (\<forall>b\<in>set (batches events). length b \<le> 25)
   \<and> count_list (snd (store_events_batch env events)) BatchWriter = length (batches events)
   \<and> (length events = 30 \<longrightarrow>
         count_list (snd (store_events_batch env events)) BatchWriter = 2)
   \<and> failed (fst (store_events_batch env events)) =
         concat (map (chunk_failures env events) [0..<length (batches events)])
   \<and> successful (fst (store_events_batch env events)) =
         concat (map (chunk_ids env events) [0..<length (batches events)])
   \<and> (\<forall>k. chunk_failures env events k =
         (case chunk_error env events k of
            None \<Rightarrow> []
          | Some e \<Rightarrow> map (\<lambda>ev. \<lparr>event = ev, error = e\<rparr>) (chunk_events env events k)))
   \<and> (\<forall>k<length (batches events).
         length (chunk_events env events k) = length (batches events ! k)
         \<and> (\<forall>i<length (batches events ! k).
               map_of (batches events ! k ! i) \<subseteq>\<^sub>m map_of (chunk_events env events k ! i))
         \<and> (chunk_error env events k = None \<longrightarrow>
               length (chunk_ids env events k) = length (batches events ! k)
               \<and> (\<forall>i<length (batches events ! k).
                     map_of (chunk_events env events k ! i) ''event_id'' =
                       Some (chunk_ids env events k ! i))))"
proof -
  have slices: "length (batches events) = (length events + 24) div 25"
    by (rule length_batches)
  have cut: "concat (batches events) = events"
    by (rule concat_batches)
  have sizes: "\<forall>b\<in>set (batches events). length b \<le> 25"
    by (simp add: size_batches)
  have writes: "count_list (snd (store_events_batch env events)) BatchWriter =
      length (batches events)"
    by (rule store_events_batch_writes)
  have thirty: "length events = 30 \<longrightarrow>
      count_list (snd (store_events_batch env events)) BatchWriter = 2"
    by (simp add: writes slices)
  note lists = store_events_batch_lists [of env events]
  have entries: "\<forall>k. chunk_failures env events k =
      (case chunk_error env events k of
         None \<Rightarrow> []
       | Some e \<Rightarrow> map (\<lambda>ev. \<lparr>event = ev, error = e\<rparr>) (chunk_events env events k))"
    by (simp add: chunk_failures_def)
  have shape: "\<forall>k<length (batches events).
      length (chunk_events env events k) = length (batches events ! k)
      \<and> (\<forall>i<length (batches events ! k).
            map_of (batches events ! k ! i) \<subseteq>\<^sub>m map_of (chunk_events env events k ! i))
      \<and> (chunk_error env events k = None \<longrightarrow>
            length (chunk_ids env events k) = length (batches events ! k)
            \<and> (\<forall>i<length (batches events ! k).
                  map_of (chunk_events env events k ! i) ''event_id'' =
                    Some (chunk_ids env events k ! i)))"
    using chunk_run_shape [of events _ env] unfolding chunk_shape_def by metis
  from slices cut sizes writes thirty lists entries shape show ?thesis
    by blast
qed


theorem store_events_batch_chunk_granular_witness:
  "length (batches (replicate 30 click_event)) = 2
   \<and> count_list (snd (store_events_batch throttling_backend (replicate 30 click_event)))
        BatchWriter = 2
   \<and> chunk_error throttling_backend (replicate 30 click_event) 0 = None
   \<and> chunk_error throttling_backend (replicate 30 click_event) 1 =
        Some ''ProvisionedThroughputExceededException''
   \<and> failed (fst (store_events_batch throttling_backend (replicate 30 click_event))) =
        map (\<lambda>ev. \<lparr>event = ev, error = ''ProvisionedThroughputExceededException''\<rparr>)
          (chunk_events throttling_backend (replicate 30 click_event) 1)
   \<and> length (failed (fst (store_events_batch throttling_backend (replicate 30 click_event)))) = 5
   \<and> length (successful (fst (store_events_batch throttling_backend (replicate 30 click_event))))
        = 30"
proof -
  let ?env = throttling_backend
  let ?events = "replicate 30 click_event"
  let ?msg = "''ProvisionedThroughputExceededException''"
  note main = store_events_batch_chunk_granular [of ?events ?env]
  have bs: "batches ?events = [replicate 25 click_event, replicate 5 click_event]"
    by (simp add: batches_def batch_size_def range_step.simps)
  have n: "length (batches ?events) = 2"
    using main by simp
  have upt2: "[0..<length (batches ?events)] = [0, Suc 0]"
    unfolding n by (simp add: upt_rec)
  have put: "\<forall>item. writer_put_item ?env item = None"
    by (simp add: throttling_backend_def sample_backend_def)
  have user: "map_of click_event ''user_id'' \<noteq> None"
    by (simp add: click_event_def)
  have users: "\<forall>ev\<in>set (batches ?events ! k). map_of ev ''user_id'' \<noteq> None" if "k < 2" for k
  proof -
    from that have "k = 0 \<or> k = 1" by auto
    then have "set (batches ?events ! k) \<subseteq> {click_event}"
      unfolding bs by auto
    with user show ?thesis by auto
  qed
  have len0: "length (chunk_events ?env ?events 0) = 25"
    and len1: "length (chunk_events ?env ?events (Suc 0)) = 5"
    using main by (simp_all add: bs)
  have e0: "chunk_error ?env ?events 0 = None"
    using chunk_all_put(1) [OF users [of 0] put] len0
    by (simp add: throttling_backend_def)
  have e1: "chunk_error ?env ?events (Suc 0) = Some ?msg"
    using chunk_all_put(1) [OF users [of "Suc 0"] put] len1
    by (simp add: throttling_backend_def)
  have f0: "chunk_failures ?env ?events 0 = []"
    and f1: "chunk_failures ?env ?events (Suc 0) =
      map (\<lambda>ev. \<lparr>event = ev, error = ?msg\<rparr>) (chunk_events ?env ?events (Suc 0))"
    unfolding chunk_failures_def e0 e1 by simp_all
  from main have "failed (fst (store_events_batch ?env ?events)) =
      concat (map (chunk_failures ?env ?events) [0..<length (batches ?events)])"
    by blast
  then have fl: "failed (fst (store_events_batch ?env ?events)) =
      map (\<lambda>ev. \<lparr>event = ev, error = ?msg\<rparr>) (chunk_events ?env ?events (Suc 0))"
    unfolding upt2 by (simp add: f0 f1)
  have i0: "length (chunk_ids ?env ?events 0) = 25"
    using chunk_all_put(2) [OF users [of 0] put] by (simp add: bs)
  have i1: "length (chunk_ids ?env ?events (Suc 0)) = 5"
    using chunk_all_put(2) [OF users [of "Suc 0"] put] by (simp add: bs)
  from main have "successful (fst (store_events_batch ?env ?events)) =
      concat (map (chunk_ids ?env ?events) [0..<length (batches ?events)])"
    by blast
  then have su: "length (successful (fst (store_events_batch ?env ?events))) = 30"
    unfolding upt2 by (simp add: i0 i1)
  from main have wr: "count_list (snd (store_events_batch ?env ?events)) BatchWriter = 2"
    by simp
  show ?thesis
    using n wr e0 e1 fl su by (simp add: len1)
qed

text \<open>
  A batch of one event against a point store whose writer fails when the block is
  left: the event's id has been appended to \<open>successful\<close> by then, and the \<open>except\<close>
  appends the event to \<open>failed\<close>.
\<close>

lemma store_events_batch_single_throttled:
  "fst (store_events_batch throttling_backend [click_event]) =
     \<lparr>successful = [JStr ''u1_1704448801''],
      failed = [\<lparr>event = stored_click_event,
                 error = ''ProvisionedThroughputExceededException''\<rparr>]\<rparr>"
proof -
  have clock: "iso (now throttling_backend 0) = ''2024-01-05T10:00:00''"
    "str_int (unix (now throttling_backend (Suc 0))) = ''1704448801''"
    by (simp_all add: throttling_backend_def sample_backend_def str_int_def str_nat.simps
        digit_def)
  have put: "writer_put_item throttling_backend stored_click_event = None"
    by (simp add: throttling_backend_def sample_backend_def)
  have one: "write_event throttling_backend 0 click_event =
      (None, stored_click_event, [JStr ''u1_1704448801''], 2,
       WriterPutItem stored_click_event # store_event_to_s3 throttling_backend stored_click_event)"
    unfolding write_event_def
    by (simp add: click_event_def Let_def clock py_str_def put [unfolded stored_click_event_def]
        stored_click_event_def)
  have items: "writer_items (WriterPutItem stored_click_event #
      store_event_to_s3 throttling_backend stored_click_event) = [stored_click_event]"
    using store_event_to_s3_trace [of throttling_backend stored_click_event]
    by (simp add: writer_items_def)
  have "write_batch throttling_backend 0 [click_event] =
      (Some ''ProvisionedThroughputExceededException'', [stored_click_event],
       [JStr ''u1_1704448801''], 2,
       BatchWriter # (WriterPutItem stored_click_event #
         store_event_to_s3 throttling_backend stored_click_event) @
       [WriterExit [stored_click_event]])"
    unfolding write_batch_def
    by (simp add: one items Let_def) (simp add: throttling_backend_def)
  moreover have "batches [click_event] = [[click_event]]"
    by (simp add: batches_def batch_size_def range_step.simps)
  ultimately show ?thesis
    by (simp add: store_events_batch_def)
qed

text \<open>
  Claim C7. An id appended to \<open>successful\<close> is never taken back. When the write of a
  slice raises \<open>e\<close>, the ids the slice has appended so far stay in \<open>successful\<close>, and
  every event of the slice is appended to \<open>failed\<close> with \<open>e\<close>; the ids appended are the
  \<open>event_id\<close>s of the first events of the slice, so each of these events is reported in
  both lists. When every event of the slice was handed to the writer and the exception
  came only as the block was left, this is every event of the slice. Such inputs exist:
  the batch of one event above is one.
\<close>

theorem store_events_batch_no_rollback:
  "(\<forall>k e. k < length (batches events) \<and> chunk_error env events k = Some e \<longrightarrow>
      (\<exists>S0 S1. successful (fst (store_events_batch env events)) =
         S0 @ chunk_ids env events k @ S1)
      \<and> (\<exists>F0 F1. failed (fst (store_events_batch env events)) =
         F0 @ map (\<lambda>ev. \<lparr>event = ev, error = e\<rparr>) (chunk_events env events k) @ F1)
      \<and> length (chunk_events env events k) = length (batches events ! k)
      \<and> length (chunk_ids env events k) \<le> length (chunk_events env events k)
      \<and> (\<forall>i<length (chunk_ids env events k).
            map_of (chunk_events env events k ! i) ''event_id'' = Some (chunk_ids env events k ! i)
            \<and> chunk_ids env events k ! i \<in> set (successful (fst (store_events_batch env events)))
            \<and> \<lparr>event = chunk_events env events k ! i, error = e\<rparr>
                \<in> set (failed (fst (store_events_batch env events)))))
   \<and> (\<forall>k e. k < length (batches events) \<and> chunk_error env events k = Some e
         \<and> (\<forall>ev\<in>set (batches events ! k). map_of ev ''user_id'' \<noteq> None)
         \<and> (\<forall>item. writer_put_item env item = None) \<longrightarrow>
         length (chunk_ids env events k) = length (batches events ! k))
   \<and> (\<exists>eid ev msg.
         eid \<in> set (successful (fst (store_events_batch throttling_backend [click_event])))
         \<and> \<lparr>event = ev, error = msg\<rparr>
             \<in> set (failed (fst (store_events_batch throttling_backend [click_event])))
         \<and> map_of ev ''event_id'' = Some eid)"
proof -
  let ?r = "fst (store_events_batch env events)"
  have kept: "(\<exists>S0 S1. successful ?r = S0 @ chunk_ids env events k @ S1)
      \<and> (\<exists>F0 F1. failed ?r =
         F0 @ map (\<lambda>ev. \<lparr>event = ev, error = e\<rparr>) (chunk_events env events k) @ F1)
      \<and> length (chunk_events env events k) = length (batches events ! k)
      \<and> length (chunk_ids env events k) \<le> length (chunk_events env events k)
      \<and> (\<forall>i<length (chunk_ids env events k).
            map_of (chunk_events env events k ! i) ''event_id'' = Some (chunk_ids env events k ! i)
            \<and> chunk_ids env events k ! i \<in> set (successful ?r)
            \<and> \<lparr>event = chunk_events env events k ! i, error = e\<rparr> \<in> set (failed ?r))"
    if k: "k < length (batches events)" and e: "chunk_error env events k = Some e" for k e
  proof -
    have fails: "chunk_failures env events k =
        map (\<lambda>ev. \<lparr>event = ev, error = e\<rparr>) (chunk_events env events k)"
      unfolding chunk_failures_def e by simp
    from store_events_batch_at_chunk [OF k, of env] obtain S0 S1 F0 F1 where
      su: "successful ?r = S0 @ chunk_ids env events k @ S1"
      and fl: "failed ?r =
        F0 @ map (\<lambda>ev. \<lparr>event = ev, error = e\<rparr>) (chunk_events env events k) @ F1"
      unfolding fails by blast
    note shape = chunk_run_shape [of events k env, unfolded chunk_shape_def]
    from shape have len: "length (chunk_events env events k) = length (batches events ! k)"
      and ids: "length (chunk_ids env events k) \<le> length (chunk_events env events k)"
      and eid: "\<forall>i<length (chunk_ids env events k).
        map_of (chunk_events env events k ! i) ''event_id'' = Some (chunk_ids env events k ! i)"
      by simp_all
    have "chunk_ids env events k ! i \<in> set (successful ?r)
        \<and> \<lparr>event = chunk_events env events k ! i, error = e\<rparr> \<in> set (failed ?r)"
      if "i < length (chunk_ids env events k)" for i
    proof -
      from that ids have "i < length (chunk_events env events k)" by simp
      then have "chunk_events env events k ! i \<in> set (chunk_events env events k)"
        by simp
      with that show ?thesis
        unfolding su fl by simp
    qed
    with su fl len ids eid show ?thesis
      by blast
  qed
  have full: "length (chunk_ids env events k) = length (batches events ! k)"
    if "\<forall>ev\<in>set (batches events ! k). map_of ev ''user_id'' \<noteq> None"
      and "\<forall>item. writer_put_item env item = None" for k
    using that by (rule chunk_all_put(2))
  have example: "\<exists>eid ev msg.
      eid \<in> set (successful (fst (store_events_batch throttling_backend [click_event])))
      \<and> \<lparr>event = ev, error = msg\<rparr>
          \<in> set (failed (fst (store_events_batch throttling_backend [click_event])))
      \<and> map_of ev ''event_id'' = Some eid"
  proof (intro exI conjI)
    show "JStr ''u1_1704448801''
        \<in> set (successful (fst (store_events_batch throttling_backend [click_event])))"
      by (simp add: store_events_batch_single_throttled)
    show "\<lparr>event = stored_click_event, error = ''ProvisionedThroughputExceededException''\<rparr>
        \<in> set (failed (fst (store_events_batch throttling_backend [click_event])))"
      by (simp add: store_events_batch_single_throttled)
    show "map_of stored_click_event ''event_id'' = Some (JStr ''u1_1704448801'')"
      by (simp add: stored_click_event_def)
  qed
  from kept full example show ?thesis
    by blast
qed


theorem store_events_batch_no_rollback_witness:
  "fst (store_events_batch throttling_backend [click_event]) =
     \<lparr>successful = [JStr ''u1_1704448801''],
      failed = [\<lparr>event = stored_click_event,
                 error = ''ProvisionedThroughputExceededException''\<rparr>]\<rparr>
   \<and> chunk_error throttling_backend [click_event] 0 =
       Some ''ProvisionedThroughputExceededException''
   \<and> length (chunk_ids throttling_backend [click_event] 0) = 1
   \<and> chunk_ids throttling_backend [click_event] 0 ! 0
       \<in> set (successful (fst (store_events_batch throttling_backend [click_event])))
   \<and> \<lparr>event = chunk_events throttling_backend [click_event] 0 ! 0,
        error = ''ProvisionedThroughputExceededException''\<rparr>
       \<in> set (failed (fst (store_events_batch throttling_backend [click_event])))
   \<and> map_of (chunk_events throttling_backend [click_event] 0 ! 0) ''event_id'' =
       Some (chunk_ids throttling_backend [click_event] 0 ! 0)"
proof -
  let ?env = throttling_backend
  let ?events = "[click_event]"
  let ?msg = "''ProvisionedThroughputExceededException''"
  have bs: "batches ?events = [[click_event]]"
    by (simp add: batches_def batch_size_def range_step.simps)
  have k: "0 < length (batches ?events)"
    by (simp add: bs)
  have user: "map_of click_event ''user_id'' \<noteq> None"
    by (simp add: click_event_def)
  have users: "\<forall>ev\<in>set (batches ?events ! 0). map_of ev ''user_id'' \<noteq> None"
    unfolding bs using user by simp
  have put: "\<forall>item. writer_put_item ?env item = None"
    by (simp add: throttling_backend_def sample_backend_def)
  have "length (chunk_events ?env ?events 0) = length (batches ?events ! 0)"
    using chunk_run_shape [of ?events 0 ?env] by (simp add: chunk_shape_def)
  then have len: "length (chunk_events ?env ?events 0) = 1"
    by (simp add: bs)
  have e: "chunk_error ?env ?events 0 = Some ?msg"
    using chunk_all_put(1) [OF users put] len by (simp add: throttling_backend_def)
  note main = store_events_batch_no_rollback [of ?events ?env]
  from main k e users put have ids: "length (chunk_ids ?env ?events 0) = 1"
    by (simp add: bs)
  from main k e have "\<forall>i<length (chunk_ids ?env ?events 0).
      map_of (chunk_events ?env ?events 0 ! i) ''event_id'' = Some (chunk_ids ?env ?events 0 ! i)
      \<and> chunk_ids ?env ?events 0 ! i \<in> set (successful (fst (store_events_batch ?env ?events)))
      \<and> \<lparr>event = chunk_events ?env ?events 0 ! i, error = ?msg\<rparr>
          \<in> set (failed (fst (store_events_batch ?env ?events)))"
    by blast
  with ids have "map_of (chunk_events ?env ?events 0 ! 0) ''event_id'' =
        Some (chunk_ids ?env ?events 0 ! 0)
      \<and> chunk_ids ?env ?events 0 ! 0 \<in> set (successful (fst (store_events_batch ?env ?events)))
      \<and> \<lparr>event = chunk_events ?env ?events 0 ! 0, error = ?msg\<rparr>
          \<in> set (failed (fst (store_events_batch ?env ?events)))"
    by simp
  with store_events_batch_single_throttled e ids show ?thesis
    by blast
qed

section \<open>Metadata of a stored event\<close>

text \<open>
  On the batch path a supplied \<open>timestamp\<close> or \<open>event_id\<close> is kept: the two assignments
  of the inner loop take the present value as the default.
\<close>

lemma write_event_keeps_supplied:
  assumes "write_event env t ev = (r, ev', ids, t', tr)" and "map_of ev k = Some v"
  shows "map_of ev' k = Some v"
  using write_event_keeps [OF assms(1)] assms(2) by (auto simp add: map_le_def dom_def)

text \<open>
  Claim C3 says that a supplied \<open>timestamp\<close> or \<open>event_id\<close> is preserved on the
  single-event path as on the batch path. The router's \<open>create_event\<close> assigns both keys
  without looking at them. On a body that supplies \<open>2020-01-01T00:00:00\<close> and
  \<open>custom-1\<close>, the event written to the point store and to the archive, and the id in
  the response, carry the clock's timestamp and the generated id \<open>u1_1704448801\<close>
  instead.
\<close>

theorem create_event_overwrites_supplied_metadata:
  "create_event sample_backend (Object supplied_event) =
     (Body [(''status'', JStr ''success''), (''event_id'', JStr ''u1_1704448801''),
            (''message'', JStr ''Event created successfully'')],
      [PutItem overwritten_event,
       PutObject ''events/year=2024/month=01/day=05/u1_1704448801.json'' overwritten_event,
       Metric ''EventsCreated'' 1, LogInfo ''Event created''])
   \<and> map_of overwritten_event ''event_id'' \<noteq> map_of supplied_event ''event_id''
   \<and> map_of overwritten_event ''timestamp'' \<noteq> map_of supplied_event ''timestamp''"
proof -
  have key: "s3_key \<lparr>year = 2024, month = 1, day = 5\<rparr> ''u1_1704448801'' =
      ''events/year=2024/month=01/day=05/u1_1704448801.json''"
    by (simp add: s3_key_def fmt_02d_def str_nat.simps digit_def)
  have stored: "store_event sample_backend overwritten_event =
      (Inr [(''status'', JStr ''success''), (''event_id'', JStr ''u1_1704448801'')],
       [PutItem overwritten_event,
        PutObject ''events/year=2024/month=01/day=05/u1_1704448801.json'' overwritten_event])"
    unfolding store_event_def store_event_to_s3_def try_store_event_to_s3_def
    by (simp add: sample_backend_def overwritten_event_def py_str_def key [simplified])
  have clock0: "iso (now sample_backend 0) = ''2024-01-05T10:00:00''"
    by (simp add: sample_backend_def)
  have clock1: "str_int (unix (now sample_backend (Suc 0))) = ''1704448801''"
    by (simp add: sample_backend_def str_int_def str_nat.simps digit_def)
  have "create_event sample_backend (Object supplied_event) =
      (case store_event sample_backend overwritten_event of
         (Inl e, tr) \<Rightarrow> create_event_failed e tr
       | (Inr result, tr) \<Rightarrow>
           (Body [(''status'', JStr ''success''), (''event_id'', JStr ''u1_1704448801''),
                  (''message'', JStr ''Event created successfully'')],
            tr @ [Metric ''EventsCreated'' 1, LogInfo ''Event created'']))"
    unfolding create_event_def
    by (simp add: required_fields_def has_field_def set_item_def supplied_event_def
        overwritten_event_def py_str_def Let_def clock0 clock1)
  then show ?thesis
    by (simp add: stored) (simp add: supplied_event_def overwritten_event_def)
qed

end
